theory Spec2Isabelle
  imports Main "HOL-Library.Char_ord" "HOL-Library.List_Lexorder"
begin

section \<open>Strings, byte strings and zip containers\<close>

text \<open>
  Entry names and paths are Python \<open>str\<close> values, entry contents are \<open>bytes\<close>.
  Both are modelled as lists of \<open>char\<close>; a name outside ASCII is read as its UTF-8
  bytes, on which the prefix and suffix tests against ASCII patterns and the
  lexicographic order agree with Python's order on code points.
\<close>

type_synonym bytes = "char list"

text \<open>\<open>s.startswith(p)\<close> and \<open>s.endswith(p)\<close>.\<close>

definition startswith :: "string \<Rightarrow> string \<Rightarrow> bool" where
  "startswith s p = (take (length p) s = p)"

definition endswith :: "string \<Rightarrow> string \<Rightarrow> bool" where
  "endswith s p = (length p \<le> length s \<and> drop (length s - length p) s = p)"

text \<open>\<open>os.path.basename\<close> (POSIX flavour): what follows the last slash.\<close>

definition basename :: "string \<Rightarrow> string" where
  "basename p = rev (takeWhile (\<lambda>c. c \<noteq> CHR ''/'') (rev p))"



text \<open>
  A \<open>zipfile.ZipFile\<close> is the list of its entries in archive order. A name may
  occur twice: \<open>namelist()\<close> then lists it twice and \<open>read(name)\<close> returns the
  entry written last (the name table is overwritten entry by entry). \<open>writestr\<close> on
  an archive opened for writing appends an entry.
\<close>

type_synonym zip = "(string \<times> bytes) list"

definition namelist :: "zip \<Rightarrow> string list" where
  "namelist z = map fst z"

definition zip_read :: "zip \<Rightarrow> string \<Rightarrow> bytes option" where
  "zip_read z n = map_of (rev z) n"

definition writestr :: "zip \<Rightarrow> string \<Rightarrow> bytes \<Rightarrow> zip" where
  "writestr z n b = z @ [(n, b)]"

text \<open>A Python \<open>dict\<close> in insertion order: assigning to a key it holds keeps the key's place.\<close>

fun dict_set :: "'k \<Rightarrow> 'v \<Rightarrow> ('k \<times> 'v) list \<Rightarrow> ('k \<times> 'v) list" where
  "dict_set k v [] = [(k, v)]"
| "dict_set k v ((k', v') # d) =
     (if k' = k then (k', v) # d else (k', v') # dict_set k v d)"

datatype error = ValueError | FileNotFoundError | BadZipFile | ParseError | KeyError | OSError

section \<open>Part classification and the copy of the source entries\<close>

definition is_header_footer_part :: "string \<Rightarrow> bool" where
  "is_header_footer_part n =
     ((startswith n ''word/header'' \<or> startswith n ''word/footer'') \<and> endswith n ''.xml'')"

definition is_header_footer_rels :: "string \<Rightarrow> bool" where
  "is_header_footer_rels n =
     (let base = basename n
      in startswith n ''word/_rels/''
         \<and> (startswith base ''header'' \<or> startswith base ''footer'')
         \<and> endswith base ''.rels'')"

text \<open>What the first loop of \<open>_replace_header_footer_parts\<close> has staged.\<close>

record staged =
  out_zip :: zip
  doc_xml_bytes :: "bytes option"
  doc_rels_bytes :: "bytes option"
  content_types_bytes :: "bytes option"

definition staged0 :: staged where
  "staged0 = \<lparr>out_zip = [], doc_xml_bytes = None, doc_rels_bytes = None,
              content_types_bytes = None\<rparr>"

text \<open>
  One round of \<open>for n in names\<close>; \<open>src_zip.open(n)\<close> and \<open>src_zip.read(n)\<close> raise
  KeyError for a name the archive does not hold.
\<close>

definition copy_step :: "zip \<Rightarrow> string \<Rightarrow> staged \<Rightarrow> error + staged" where
  "copy_step src_zip n st =
     (case zip_read src_zip n of
        None \<Rightarrow> Inl KeyError
      | Some b \<Rightarrow>
          if n = ''word/document.xml'' then Inr (st\<lparr>doc_xml_bytes := Some b\<rparr>)
          else if n = ''word/_rels/document.xml.rels'' then Inr (st\<lparr>doc_rels_bytes := Some b\<rparr>)
          else if n = ''[Content_Types].xml'' then Inr (st\<lparr>content_types_bytes := Some b\<rparr>)
          else if is_header_footer_part n \<or> is_header_footer_rels n then Inr st
          else Inr (st\<lparr>out_zip := writestr (out_zip st) n b\<rparr>))"

fun copy_loop :: "zip \<Rightarrow> string list \<Rightarrow> staged \<Rightarrow> error + staged" where
  "copy_loop src_zip [] st = Inr st"
| "copy_loop src_zip (n # ns) st =
     (case copy_step src_zip n st of
        Inl e \<Rightarrow> Inl e
      | Inr st' \<Rightarrow> copy_loop src_zip ns st')"

section \<open>The template's parts\<close>

text \<open>
  \<open>_collect_headers_footers_from_template\<close>: two dictionaries from entry name to
  content, filled in archive order. The two tests of its loop are named.
\<close>

definition is_header_name :: "string \<Rightarrow> bool" where
  "is_header_name item = (startswith item ''word/header'' \<and> endswith item ''.xml'')"

definition is_footer_name :: "string \<Rightarrow> bool" where
  "is_footer_name item = (startswith item ''word/footer'' \<and> endswith item ''.xml'')"

fun collect_loop :: "zip \<Rightarrow> string list \<Rightarrow> (string \<times> bytes) list \<times> (string \<times> bytes) list
    \<Rightarrow> error + (string \<times> bytes) list \<times> (string \<times> bytes) list" where
  "collect_loop tpl_zip [] hf = Inr hf"
| "collect_loop tpl_zip (item # items) (headers, footers) =
     (if is_header_name item then
        (case zip_read tpl_zip item of
           None \<Rightarrow> Inl KeyError
         | Some b \<Rightarrow> collect_loop tpl_zip items (dict_set item b headers, footers))
      else if is_footer_name item then
        (case zip_read tpl_zip item of
           None \<Rightarrow> Inl KeyError
         | Some b \<Rightarrow> collect_loop tpl_zip items (headers, dict_set item b footers))
      else collect_loop tpl_zip items (headers, footers))"

definition collect_headers_footers_from_template ::
    "zip \<Rightarrow> error + (string \<times> bytes) list \<times> (string \<times> bytes) list" where
  "collect_headers_footers_from_template tpl_zip =
     collect_loop tpl_zip (namelist tpl_zip) ([], [])"

text \<open>\<open>_pick_first_part\<close>: the entry of the smallest name, \<open>sorted(parts.keys())[0]\<close>.\<close>

definition pick_first_part :: "(string \<times> bytes) list \<Rightarrow> string option \<times> bytes option" where
  "pick_first_part parts =
     (case sort (map fst parts) of
        [] \<Rightarrow> (None, None)
      | name # _ \<Rightarrow> (Some name, map_of parts name))"

text \<open>
  \<open>_ensure_media_dependencies\<close>: a media entry of the template is written unless the
  output already lists its name.
\<close>

fun media_loop :: "zip \<Rightarrow> string list \<Rightarrow> zip \<Rightarrow> error + zip" where
  "media_loop tpl_zip [] out = Inr out"
| "media_loop tpl_zip (item # items) out =
     (if startswith item ''word/media/'' \<and> item \<notin> set (namelist out) then
        (case zip_read tpl_zip item of
           None \<Rightarrow> Inl KeyError
         | Some b \<Rightarrow> media_loop tpl_zip items (writestr out item b))
      else media_loop tpl_zip items out)"

definition ensure_media_dependencies :: "zip \<Rightarrow> zip \<Rightarrow> error + zip" where
  "ensure_media_dependencies tpl_zip out = media_loop tpl_zip (namelist tpl_zip) out"

text \<open>
  Writing a selected part under its canonical name, with its own relationship file
  when the template has one (the \<open>except KeyError: pass\<close> branch otherwise).
\<close>

definition write_part :: "zip \<Rightarrow> zip \<Rightarrow> string \<Rightarrow> string \<Rightarrow> string option \<Rightarrow> bytes option \<Rightarrow> zip" where
  "write_part tpl_zip out canonical canonical_rels tpl_name tpl_bytes =
     (case tpl_bytes of
        None \<Rightarrow> out
      | Some b \<Rightarrow>
          (let out1 = writestr out canonical b
           in case tpl_name of
                None \<Rightarrow> out1
              | Some name \<Rightarrow>
                  if name = [] then out1
                  else (case zip_read tpl_zip (''word/_rels/'' @ basename name @ ''.rels'') of
                          None \<Rightarrow> out1
                        | Some data \<Rightarrow> writestr out1 canonical_rels data)))"

section \<open>XML trees\<close>

text \<open>
  An \<open>xml.etree.ElementTree.Element\<close>: tag (with its namespace in braces), attribute
  dictionary in insertion order, text, tail and children. The parser keeps neither
  comments nor processing instructions, so every child is an element.
\<close>

datatype element =
  Element (tag: string) (attrib: "(string \<times> string) list")
    (elem_text: "string option") (elem_tail: "string option") (children: "element list")

text \<open>\<open>ET.Element(tag)\<close> and \<open>ET.SubElement(parent, tag)\<close> make an element with nothing in it.\<close>

definition new_element :: "string \<Rightarrow> element" where
  "new_element t = Element t [] None None []"

definition append_child :: "element \<Rightarrow> element \<Rightarrow> element" where
  "append_child parent c =
     Element (tag parent) (attrib parent) (elem_text parent) (elem_tail parent)
       (children parent @ [c])"

definition set_children :: "element \<Rightarrow> element list \<Rightarrow> element" where
  "set_children e cs = Element (tag e) (attrib e) (elem_text e) (elem_tail e) cs"

text \<open>\<open>el.get(key)\<close>, \<open>el.get(key, default)\<close> and \<open>el.set(key, value)\<close>.\<close>

definition get_attr :: "element \<Rightarrow> string \<Rightarrow> string option" where
  "get_attr e k = map_of (attrib e) k"

definition get_attr_default :: "element \<Rightarrow> string \<Rightarrow> string \<Rightarrow> string" where
  "get_attr_default e k d = (case map_of (attrib e) k of None \<Rightarrow> d | Some v \<Rightarrow> v)"

definition set_attr :: "element \<Rightarrow> string \<Rightarrow> string \<Rightarrow> element" where
  "set_attr e k v =
     Element (tag e) (dict_set k v (attrib e)) (elem_text e) (elem_tail e) (children e)"

text \<open>\<open>el.find(tag)\<close>: the first child of that tag; \<open>el.findall(tag)\<close>: all of them.\<close>

definition find_child :: "element \<Rightarrow> string \<Rightarrow> element option" where
  "find_child e t = List.find (\<lambda>c. tag c = t) (children e)"

definition findall_children :: "element \<Rightarrow> string \<Rightarrow> element list" where
  "findall_children e t = filter (\<lambda>c. tag c = t) (children e)"

text \<open>
  \<open>el.findall('.//tag')\<close>: the descendants of that tag at any depth, in document
  order, the element itself excluded.
\<close>

fun descendants :: "element \<Rightarrow> element list" where
  "descendants (Element t a tx tl0 cs) = concat (map (\<lambda>c. c # descendants c) cs)"

definition findall_descendants :: "element \<Rightarrow> string \<Rightarrow> element list" where
  "findall_descendants e t = filter (\<lambda>c. tag c = t) (descendants e)"

text \<open>Changing, in place, the first element of a list that meets a test.\<close>

fun map_first :: "('a \<Rightarrow> bool) \<Rightarrow> ('a \<Rightarrow> 'a) \<Rightarrow> 'a list \<Rightarrow> 'a list" where
  "map_first p f [] = []"
| "map_first p f (x # xs) = (if p x then f x # xs else x # map_first p f xs)"

section \<open>Namespaces and tags\<close>

definition NS_w :: string where
  "NS_w = ''http://schemas.openxmlformats.org/wordprocessingml/2006/main''"

definition NS_r :: string where
  "NS_r = ''http://schemas.openxmlformats.org/officeDocument/2006/relationships''"

definition REL_NS :: string where
  "REL_NS = ''http://schemas.openxmlformats.org/package/2006/relationships''"

definition CT_NS :: string where
  "CT_NS = ''http://schemas.openxmlformats.org/package/2006/content-types''"

definition qname :: "string \<Rightarrow> string \<Rightarrow> string" where
  "qname ns l = ''{'' @ ns @ ''}'' @ l"

definition HEADER_REL_TYPE :: string where
  "HEADER_REL_TYPE = ''http://schemas.openxmlformats.org/officeDocument/2006/relationships/header''"

definition FOOTER_REL_TYPE :: string where
  "FOOTER_REL_TYPE = ''http://schemas.openxmlformats.org/officeDocument/2006/relationships/footer''"

definition HEADER_CONTENT_TYPE :: string where
  "HEADER_CONTENT_TYPE =
     ''application/vnd.openxmlformats-officedocument.wordprocessingml.header+xml''"

definition FOOTER_CONTENT_TYPE :: string where
  "FOOTER_CONTENT_TYPE =
     ''application/vnd.openxmlformats-officedocument.wordprocessingml.footer+xml''"

section \<open>The document's relationship manifest\<close>

text \<open>\<open>f'rId{i}'\<close>: the decimal digits of a natural number after \<open>rId\<close>.\<close>

definition digit_char :: "nat \<Rightarrow> char" where
  "digit_char d = ''0123456789'' ! d"

fun str_nat :: "nat \<Rightarrow> string" where
  "str_nat n = (if n < 10 then [digit_char n] else str_nat (n div 10) @ [digit_char (n mod 10)])"

definition rid :: "nat \<Rightarrow> string" where
  "rid i = ''rId'' @ str_nat i"

text \<open>
  The loop over \<open>list(rels_root)\<close>: the Id of every child whose tag ends in
  \<open>Relationship\<close> is collected when it is not empty, and the child is removed when
  its Type ends in \<open>/header\<close> or \<open>/footer\<close>.
\<close>

definition is_relationship :: "element \<Rightarrow> bool" where
  "is_relationship rel = endswith (tag rel) ''Relationship''"

definition is_header_footer_rel :: "element \<Rightarrow> bool" where
  "is_header_footer_rel rel =
     (is_relationship rel
      \<and> (let rtype = get_attr_default rel ''Type'' []
         in endswith rtype ''/header'' \<or> endswith rtype ''/footer''))"

fun collect_used_ids :: "element list \<Rightarrow> string list \<Rightarrow> string list" where
  "collect_used_ids [] used_ids = used_ids"
| "collect_used_ids (rel # rels) used_ids =
     (if is_relationship rel then
        (case get_attr rel ''Id'' of
           None \<Rightarrow> collect_used_ids rels used_ids
         | Some r \<Rightarrow>
             if r \<noteq> [] then collect_used_ids rels (List.insert r used_ids)
             else collect_used_ids rels used_ids)
      else collect_used_ids rels used_ids)"

definition strip_header_footer_rels :: "element \<Rightarrow> element" where
  "strip_header_footer_rels rels_root =
     set_children rels_root (filter (\<lambda>rel. \<not> is_header_footer_rel rel) (children rels_root))"

text \<open>
  \<open>new_rid\<close>: the first candidate from \<open>rId9001\<close> on that is not in use; it is
  marked used at once. The set of used ids is held as a list without repetitions.
\<close>

function new_rid_loop :: "string list \<Rightarrow> nat \<Rightarrow> string" where
  "new_rid_loop used_ids i =
     (if rid i \<in> set used_ids then new_rid_loop used_ids (i + 1) else rid i)"
  by pat_completeness auto


text \<open>The loop ends: the candidates are pairwise different and the used ids are finitely many.\<close>

definition digit_val :: "char \<Rightarrow> nat" where
  "digit_val c = of_char c - 48"

declare str_nat.simps [simp del]

lemma str_nat_small: "n < 10 \<Longrightarrow> str_nat n = [digit_char n]"
  by (subst str_nat.simps) simp

lemma str_nat_big: "\<not> n < 10 \<Longrightarrow> str_nat n = str_nat (n div 10) @ [digit_char (n mod 10)]"
  by (subst str_nat.simps) simp

lemma digit_val_digit_char: "d < 10 \<Longrightarrow> digit_val (digit_char d) = d"
proof -
  assume "d < 10"
  then have "d \<in> {0,1,2,3,4,5,6,7,8,9}" by auto
  then show ?thesis by (auto simp: digit_char_def digit_val_def)
qed

lemma foldl_str_nat: "foldl (\<lambda>a c. 10 * a + digit_val c) 0 (str_nat n) = n"
proof (induction n rule: str_nat.induct)
  case (1 n)
  show ?case
  proof (cases "n < 10")
    case True
    then show ?thesis by (simp add: str_nat_small digit_val_digit_char)
  next
    case False
    with 1 show ?thesis by (simp add: str_nat_big digit_val_digit_char)
  qed
qed

lemma str_nat_inj: "str_nat m = str_nat n \<Longrightarrow> m = n"
  by (metis foldl_str_nat)

lemma rid_inj: "rid m = rid n \<Longrightarrow> m = n"
  by (simp add: rid_def str_nat_inj)

lemma finite_rid_used: "finite {j. rid j \<in> set used_ids}"
proof -
  have "inj_on rid {j. rid j \<in> set used_ids}" by (auto simp: inj_on_def dest: rid_inj)
  moreover have "rid ` {j. rid j \<in> set used_ids} \<subseteq> set used_ids" by auto
  ultimately show ?thesis by (metis finite_imageD finite_subset List.finite_set)
qed

termination new_rid_loop
proof (relation "measure (\<lambda>(used_ids, i). card {j. i \<le> j \<and> rid j \<in> set used_ids})")
  show "wf (measure (\<lambda>(used_ids, i). card {j. i \<le> j \<and> rid j \<in> set used_ids}))" by simp
next
  fix used_ids :: "string list" and i :: nat
  assume h: "rid i \<in> set used_ids"
  have fin: "finite {j. i \<le> j \<and> rid j \<in> set used_ids}"
    by (rule finite_subset[OF _ finite_rid_used[of used_ids]]) auto
  have "{j. i + 1 \<le> j \<and> rid j \<in> set used_ids} \<subset> {j. i \<le> j \<and> rid j \<in> set used_ids}"
  proof
    show "{j. i + 1 \<le> j \<and> rid j \<in> set used_ids} \<subseteq> {j. i \<le> j \<and> rid j \<in> set used_ids}"
      by auto
    have "i \<in> {j. i \<le> j \<and> rid j \<in> set used_ids}" using h by simp
    moreover have "i \<notin> {j. i + 1 \<le> j \<and> rid j \<in> set used_ids}" by simp
    ultimately show "{j. i + 1 \<le> j \<and> rid j \<in> set used_ids} \<noteq> {j. i \<le> j \<and> rid j \<in> set used_ids}"
      by blast
  qed
  then have "card {j. i + 1 \<le> j \<and> rid j \<in> set used_ids}
      < card {j. i \<le> j \<and> rid j \<in> set used_ids}"
    using fin by (rule psubset_card_mono[rotated])
  then show "((used_ids, i + 1), (used_ids, i))
      \<in> measure (\<lambda>(used_ids, i). card {j. i \<le> j \<and> rid j \<in> set used_ids})"
    by simp
qed

declare new_rid_loop.simps [simp del]

definition new_rid :: "string list \<Rightarrow> string \<times> string list" where
  "new_rid used_ids = (let cand = new_rid_loop used_ids 9001 in (cand, List.insert cand used_ids))"


text \<open>A new \<open>Relationship\<close> child with its three attributes, appended to the manifest.\<close>

definition relationship :: "string \<Rightarrow> string \<Rightarrow> string \<Rightarrow> element" where
  "relationship r rtype target =
     set_attr (set_attr (set_attr (new_element (qname REL_NS ''Relationship'')) ''Id'' r)
       ''Type'' rtype) ''Target'' target"

definition add_relationship :: "element \<Rightarrow> string \<Rightarrow> string \<Rightarrow> string \<Rightarrow> element" where
  "add_relationship rels_root r rtype target =
     append_child rels_root (relationship r rtype target)"

text \<open>
  The edit of the manifest: collect the ids in use, drop the header and footer
  relationships, then allocate and add one relationship for each installed part.
\<close>

definition edit_rels :: "element \<Rightarrow> bool \<Rightarrow> bool \<Rightarrow> element \<times> string option \<times> string option" where
  "edit_rels rels_root0 has_header has_footer =
     (let used0 = collect_used_ids (children rels_root0) [];
          r1 = strip_header_footer_rels rels_root0;
          (header_rel_id, used1, r2) =
            (if has_header then
               (let (c, u) = new_rid used0
                in (Some c, u, add_relationship r1 c HEADER_REL_TYPE ''header1.xml''))
             else (None, used0, r1));
          (footer_rel_id, used2, r3) =
            (if has_footer then
               (let (c, u) = new_rid used1
                in (Some c, u, add_relationship r2 c FOOTER_REL_TYPE ''footer1.xml''))
             else (None, used1, r2))
      in (r3, header_rel_id, footer_rel_id))"

section \<open>The section properties of the document\<close>

definition header_reference :: "string \<Rightarrow> element" where
  "header_reference r =
     set_attr (set_attr (new_element (qname NS_w ''headerReference'')) (qname NS_w ''type'')
       ''default'') (qname NS_r ''id'') r"

definition footer_reference :: "string \<Rightarrow> element" where
  "footer_reference r =
     set_attr (set_attr (new_element (qname NS_w ''footerReference'')) (qname NS_w ''type'')
       ''default'') (qname NS_r ''id'') r"

definition new_references :: "string option \<Rightarrow> string option \<Rightarrow> element list" where
  "new_references header_rel_id footer_rel_id =
     (case header_rel_id of None \<Rightarrow> [] | Some r \<Rightarrow> [header_reference r])
     @ (case footer_rel_id of None \<Rightarrow> [] | Some r \<Rightarrow> [footer_reference r])"

definition is_reference :: "element \<Rightarrow> bool" where
  "is_reference c =
     (tag c = qname NS_w ''headerReference'' \<or> tag c = qname NS_w ''footerReference'')"

text \<open>
  The loop \<open>for sect in sect_prs\<close> changes, in place, every \<open>sectPr\<close> object that
  \<open>findall\<close> found below the body: its reference children are removed and the new
  references appended. On an immutable tree this is the rewrite of every \<open>sectPr\<close>
  descendant; a \<open>sectPr\<close> nested in a removed reference leaves the tree with it, and
  the new references hold no \<open>sectPr\<close>.
\<close>

fun fix_sect_prs :: "element list \<Rightarrow> element \<Rightarrow> element" where
  "fix_sect_prs refs (Element t a tx tl0 cs) =
     (if t = qname NS_w ''sectPr''
      then Element t a tx tl0 (map (fix_sect_prs refs) (filter (\<lambda>c. \<not> is_reference c) cs) @ refs)
      else Element t a tx tl0 (map (fix_sect_prs refs) cs))"

text \<open>With no \<open>sectPr\<close> below the body, one is appended to the body and given the references.\<close>

definition edit_body :: "element list \<Rightarrow> element \<Rightarrow> element" where
  "edit_body refs body =
     (if findall_descendants body (qname NS_w ''sectPr'') = []
      then append_child body (set_children (new_element (qname NS_w ''sectPr'')) refs)
      else set_children body (map (fix_sect_prs refs) (children body)))"

text \<open>The body is the first \<open>w:body\<close> child of the root; a root without one gets a new body.\<close>

definition edit_doc :: "element list \<Rightarrow> element \<Rightarrow> element" where
  "edit_doc refs doc_root =
     (case find_child doc_root (qname NS_w ''body'') of
        None \<Rightarrow> append_child doc_root (edit_body refs (new_element (qname NS_w ''body'')))
      | Some body \<Rightarrow>
          set_children doc_root
            (map_first (\<lambda>c. tag c = qname NS_w ''body'') (edit_body refs) (children doc_root)))"

definition minimal_document :: element where
  "minimal_document =
     append_child (new_element (qname NS_w ''document''))
       (append_child (new_element (qname NS_w ''body'')) (new_element (qname NS_w ''sectPr'')))"

section \<open>The content-type registry\<close>

definition is_override_for :: "string \<Rightarrow> element \<Rightarrow> bool" where
  "is_override_for part_name ov =
     (tag ov = qname CT_NS ''Override'' \<and> get_attr ov ''PartName'' = Some part_name)"

definition new_override :: "string \<Rightarrow> string \<Rightarrow> element" where
  "new_override part_name content_type =
     set_attr (set_attr (new_element (qname CT_NS ''Override'')) ''PartName'' part_name)
       ''ContentType'' content_type"

definition ensure_override :: "element \<Rightarrow> string \<Rightarrow> string \<Rightarrow> element" where
  "ensure_override ct_root part_name content_type =
     (case List.find (is_override_for part_name) (children ct_root) of
        Some ov \<Rightarrow>
          set_children ct_root
            (map_first (is_override_for part_name) (\<lambda>ov. set_attr ov ''ContentType'' content_type)
               (children ct_root))
      | None \<Rightarrow> append_child ct_root (new_override part_name content_type))"

definition edit_content_types :: "element \<Rightarrow> bool \<Rightarrow> bool \<Rightarrow> element" where
  "edit_content_types ct_root0 has_header has_footer =
     (let c1 = (if has_header
                then ensure_override ct_root0 ''/word/header1.xml'' HEADER_CONTENT_TYPE
                else ct_root0)
      in if has_footer then ensure_override c1 ''/word/footer1.xml'' FOOTER_CONTENT_TYPE else c1)"


section \<open>The transform\<close>

text \<open>
  \<open>ET.fromstring\<close> and \<open>ET.tostring\<close> belong to the XML library and are parameters:
  \<open>fromstring\<close> gives \<open>None\<close> where the library raises ParseError. A part the source
  does not hold is replaced by an empty root and is not parsed.
\<close>

definition parse_or :: "(bytes \<Rightarrow> element option) \<Rightarrow> bytes option \<Rightarrow> element \<Rightarrow> error + element" where
  "parse_or fromstring data fallback =
     (case data of
        None \<Rightarrow> Inr fallback
      | Some b \<Rightarrow> (case fromstring b of None \<Rightarrow> Inl ParseError | Some root \<Rightarrow> Inr root))"

text \<open>
  The result of \<open>_replace_header_footer_parts\<close>: the entries written to the output
  archive, with the three trees they were serialised from and the allocated ids.
\<close>

record transformed =
  entries :: zip
  ct_root :: element
  rels_root :: element
  doc_root :: element
  header_rel_id :: "string option"
  footer_rel_id :: "string option"

text \<open>The first half: the copy of the source, the template's media and the selected parts.\<close>

definition stage_parts :: "zip \<Rightarrow> zip \<Rightarrow> error + staged \<times> bytes option \<times> bytes option" where
  "stage_parts src_zip tpl_zip =
     (case copy_loop src_zip (namelist src_zip) staged0 of
        Inl e \<Rightarrow> Inl e
      | Inr st \<Rightarrow>
          (case collect_headers_footers_from_template tpl_zip of
             Inl e \<Rightarrow> Inl e
           | Inr (tpl_headers, tpl_footers) \<Rightarrow>
               (let (tpl_header_name, tpl_header_bytes) = pick_first_part tpl_headers;
                    (tpl_footer_name, tpl_footer_bytes) = pick_first_part tpl_footers
                in case ensure_media_dependencies tpl_zip (out_zip st) of
                     Inl e \<Rightarrow> Inl e
                   | Inr out1 \<Rightarrow>
                       (let out2 = write_part tpl_zip out1 ''word/header1.xml''
                                     ''word/_rels/header1.xml.rels'' tpl_header_name tpl_header_bytes;
                            out3 = write_part tpl_zip out2 ''word/footer1.xml''
                                     ''word/_rels/footer1.xml.rels'' tpl_footer_name tpl_footer_bytes
                        in Inr (st\<lparr>out_zip := out3\<rparr>, tpl_header_bytes, tpl_footer_bytes)))))"

text \<open>The second half: the three edited parts, written last.\<close>

definition edit_parts :: "(bytes \<Rightarrow> element option) \<Rightarrow> (element \<Rightarrow> bytes)
    \<Rightarrow> staged \<Rightarrow> bool \<Rightarrow> bool \<Rightarrow> error + transformed" where
  "edit_parts fromstring tostring st has_header has_footer =
     (case parse_or fromstring (doc_rels_bytes st) (new_element (qname REL_NS ''Relationships'')) of
        Inl e \<Rightarrow> Inl e
      | Inr rels_root0 \<Rightarrow>
          (let (rels_root1, hid, fid) = edit_rels rels_root0 has_header has_footer
           in case parse_or fromstring (doc_xml_bytes st) minimal_document of
                Inl e \<Rightarrow> Inl e
              | Inr doc_root0 \<Rightarrow>
                  (let doc_root1 = edit_doc (new_references hid fid) doc_root0
                   in case parse_or fromstring (content_types_bytes st)
                             (new_element (qname CT_NS ''Types'')) of
                        Inl e \<Rightarrow> Inl e
                      | Inr ct_root0 \<Rightarrow>
                          (let ct_root1 = edit_content_types ct_root0 has_header has_footer;
                               o1 = writestr (out_zip st) ''[Content_Types].xml'' (tostring ct_root1);
                               o2 = writestr o1 ''word/_rels/document.xml.rels'' (tostring rels_root1);
                               o3 = writestr o2 ''word/document.xml'' (tostring doc_root1)
                           in Inr \<lparr>entries = o3, ct_root = ct_root1, rels_root = rels_root1,
                                   doc_root = doc_root1, header_rel_id = hid,
                                   footer_rel_id = fid\<rparr>))))"

definition replace_header_footer_parts :: "(bytes \<Rightarrow> element option) \<Rightarrow> (element \<Rightarrow> bytes)
    \<Rightarrow> zip \<Rightarrow> zip \<Rightarrow> error + transformed" where
  "replace_header_footer_parts fromstring tostring src_zip tpl_zip =
     (case stage_parts src_zip tpl_zip of
        Inl e \<Rightarrow> Inl e
      | Inr (st, tpl_header_bytes, tpl_footer_bytes) \<Rightarrow>
          edit_parts fromstring tostring st (tpl_header_bytes \<noteq> None) (tpl_footer_bytes \<noteq> None))"


section \<open>The entry point and the file system\<close>









section \<open>Facts about the archive operations\<close>

text \<open>
  A source entry is copied when its name is none of the three edited parts and passes
  neither classifier: the last branch of the copy loop.
\<close>

definition passthrough :: "string \<Rightarrow> bool" where
  "passthrough n = (n \<noteq> ''word/document.xml'' \<and> n \<noteq> ''word/_rels/document.xml.rels''
     \<and> n \<noteq> ''[Content_Types].xml'' \<and> \<not> is_header_footer_part n \<and> \<not> is_header_footer_rels n)"

lemma zip_read_append:
  "zip_read (a @ b) n = (case zip_read b n of None \<Rightarrow> zip_read a n | Some v \<Rightarrow> Some v)"
  by (simp add: zip_read_def map_add_def split: option.splits)

lemma zip_read_None_iff: "zip_read z n = None \<longleftrightarrow> n \<notin> set (namelist z)"
  by (simp add: zip_read_def namelist_def map_of_eq_None_iff)

lemma zip_read_distinct: "distinct (namelist z) \<Longrightarrow> (n, b) \<in> set z \<Longrightarrow> zip_read z n = Some b"
  by (simp add: zip_read_def namelist_def rev_map[symmetric])

lemma copy_step_out:
  "copy_step src n st = Inr st1 \<Longrightarrow>
   out_zip st1 = out_zip st @ (if passthrough n then [(n, the (zip_read src n))] else [])"
  unfolding copy_step_def passthrough_def writestr_def
  by (cases "zip_read src n") (auto split: if_splits)

lemma copy_loop_out:
  "copy_loop src ns st = Inr st' \<Longrightarrow>
   out_zip st' = out_zip st @ map (\<lambda>n. (n, the (zip_read src n))) (filter passthrough ns)"
proof (induction ns arbitrary: st)
  case Nil
  then show ?case by simp
next
  case (Cons n ns)
  then obtain st1 where s1: "copy_step src n st = Inr st1" and s2: "copy_loop src ns st1 = Inr st'"
    by (cases "copy_step src n st") simp_all
  show ?case
    using Cons.IH[OF s2] copy_step_out[OF s1] by simp
qed

lemma zip_read_writestr:
  "zip_read (writestr z m b) n = (if n = m then Some b else zip_read z n)"
  by (simp add: writestr_def zip_read_def)

lemma namelist_writestr: "namelist (writestr z m b) = namelist z @ [m]"
  by (simp add: writestr_def namelist_def)

lemma zip_read_in_set: "zip_read z n = Some b \<Longrightarrow> (n, b) \<in> set z"
  by (auto simp: zip_read_def dest: map_of_SomeD)

lemma media_loop_read:
  "media_loop tpl items out = Inr out' \<Longrightarrow>
   zip_read out' n =
     (if n \<in> set items \<and> startswith n ''word/media/'' \<and> n \<notin> set (namelist out)
      then zip_read tpl n else zip_read out n)"
proof (induction items arbitrary: out)
  case Nil
  then show ?case by simp
next
  case (Cons item items)
  show ?case
  proof (cases "startswith item ''word/media/'' \<and> item \<notin> set (namelist out)")
    case True
    with Cons.prems obtain b where b: "zip_read tpl item = Some b"
      and r: "media_loop tpl items (writestr out item b) = Inr out'"
      by (cases "zip_read tpl item") auto
    show ?thesis
      using Cons.IH[OF r] True b
      by (auto simp: zip_read_writestr namelist_writestr)
  next
    case False
    with Cons.prems have r: "media_loop tpl items out = Inr out'" by auto
    show ?thesis
      using Cons.IH[OF r] False by (auto simp: zip_read_None_iff[symmetric])
  qed
qed

lemma media_loop_names:
  "media_loop tpl items out = Inr out' \<Longrightarrow>
   set (namelist out') = set (namelist out) \<union> {n \<in> set items. startswith n ''word/media/''}"
proof (induction items arbitrary: out)
  case Nil
  then show ?case by simp
next
  case (Cons item items)
  show ?case
  proof (cases "startswith item ''word/media/'' \<and> item \<notin> set (namelist out)")
    case True
    with Cons.prems obtain b where b: "zip_read tpl item = Some b"
      and r: "media_loop tpl items (writestr out item b) = Inr out'"
      by (cases "zip_read tpl item") auto
    show ?thesis
      using Cons.IH[OF r] True by (auto simp: namelist_writestr)
  next
    case False
    with Cons.prems have r: "media_loop tpl items out = Inr out'" by auto
    show ?thesis
      using Cons.IH[OF r] False by auto
  qed
qed

lemma write_part_read_other:
  "n \<noteq> c \<Longrightarrow> n \<noteq> cr \<Longrightarrow> zip_read (write_part tpl out c cr name data) n = zip_read out n"
  by (auto simp: write_part_def Let_def zip_read_writestr split: option.splits)

lemma write_part_read_canonical:
  "c \<noteq> cr \<Longrightarrow> zip_read (write_part tpl out c cr name data) c =
     (case data of None \<Rightarrow> zip_read out c | Some b \<Rightarrow> Some b)"
  by (auto simp: write_part_def Let_def zip_read_writestr split: option.splits)

lemma write_part_names:
  "set (namelist (write_part tpl out c cr name data)) \<subseteq> set (namelist out) \<union> {c, cr}"
  by (auto simp: write_part_def Let_def namelist_writestr split: option.splits)

lemma write_part_names_mono:
  "set (namelist out) \<subseteq> set (namelist (write_part tpl out c cr name data))"
  by (auto simp: write_part_def Let_def namelist_writestr split: option.splits)

lemma write_part_None: "write_part tpl out c cr name None = out"
  by (simp add: write_part_def)


lemma map_of_dict_set: "map_of (dict_set k v d) = (map_of d)(k \<mapsto> v)"
  by (induction d) (auto simp: fun_eq_iff)

lemma keys_dict_set: "fst ` set (dict_set k v d) = insert k (fst ` set d)"
  by (induction d) force+

lemma header_not_footer: "is_header_name n \<Longrightarrow> \<not> is_footer_name n"
  by (auto simp: is_header_name_def is_footer_name_def startswith_def)

lemma collect_loop_headers:
  "collect_loop tpl items (h0, f0) = Inr (h, f) \<Longrightarrow>
   set (map fst h) = set (map fst h0) \<union> {n \<in> set items. is_header_name n}
   \<and> (\<forall>n. map_of h n = (if n \<in> set items \<and> is_header_name n then zip_read tpl n else map_of h0 n))"
proof (induction items arbitrary: h0 f0)
  case Nil
  then show ?case by simp
next
  case (Cons item items)
  show ?case
  proof (cases "is_header_name item")
    case True
    with Cons.prems obtain b where b: "zip_read tpl item = Some b"
      and r: "collect_loop tpl items (dict_set item b h0, f0) = Inr (h, f)"
      by (cases "zip_read tpl item") auto
    show ?thesis
      using Cons.IH[OF r] True b by (auto simp: keys_dict_set map_of_dict_set)
  next
    case False
    show ?thesis
    proof (cases "is_footer_name item")
      case True
      with False Cons.prems obtain b where
        r: "collect_loop tpl items (h0, dict_set item b f0) = Inr (h, f)"
        by (cases "zip_read tpl item") auto
      show ?thesis using Cons.IH[OF r] False by auto
    next
      case nf: False
      with False Cons.prems have r: "collect_loop tpl items (h0, f0) = Inr (h, f)" by auto
      show ?thesis using Cons.IH[OF r] False by auto
    qed
  qed
qed

lemma collect_loop_footers:
  "collect_loop tpl items (h0, f0) = Inr (h, f) \<Longrightarrow>
   set (map fst f) = set (map fst f0) \<union> {n \<in> set items. is_footer_name n}
   \<and> (\<forall>n. map_of f n = (if n \<in> set items \<and> is_footer_name n then zip_read tpl n else map_of f0 n))"
proof (induction items arbitrary: h0 f0)
  case Nil
  then show ?case by simp
next
  case (Cons item items)
  show ?case
  proof (cases "is_header_name item")
    case True
    then have nf: "\<not> is_footer_name item" by (rule header_not_footer)
    from True Cons.prems obtain b where
      r: "collect_loop tpl items (dict_set item b h0, f0) = Inr (h, f)"
      by (cases "zip_read tpl item") auto
    show ?thesis
      using Cons.IH[OF r] nf by auto
  next
    case False
    show ?thesis
    proof (cases "is_footer_name item")
      case True
      with False Cons.prems obtain b where b: "zip_read tpl item = Some b" and
        r: "collect_loop tpl items (h0, dict_set item b f0) = Inr (h, f)"
        by (cases "zip_read tpl item") auto
      show ?thesis using Cons.IH[OF r] True b by (auto simp: keys_dict_set map_of_dict_set)
    next
      case nf: False
      with False Cons.prems have r: "collect_loop tpl items (h0, f0) = Inr (h, f)" by auto
      show ?thesis using Cons.IH[OF r] nf by auto
    qed
  qed
qed

lemma sort_hd_Min: "sort xs = y # ys \<Longrightarrow> y = Min (set xs)"
proof -
  assume h: "sort xs = y # ys"
  have "sorted (sort xs)" by simp
  then have s: "sorted (y # ys)" using h by simp
  have "set (sort xs) = set xs" by simp
  then have e: "set xs = set (y # ys)" using h by simp
  show ?thesis
    unfolding e using s by (auto intro!: Min_eqI[symmetric])
qed

lemma pick_first_part_empty: "map fst parts = [] \<Longrightarrow> pick_first_part parts = (None, None)"
  by (simp add: pick_first_part_def)

lemma pick_first_part_nonempty:
  "set (map fst parts) \<noteq> {} \<Longrightarrow>
   pick_first_part parts = (Some (Min (set (map fst parts))), map_of parts (Min (set (map fst parts))))"
proof -
  assume ne: "set (map fst parts) \<noteq> {}"
  then have "sort (map fst parts) \<noteq> []" by (metis set_empty set_sort)
  then obtain y ys where s: "sort (map fst parts) = y # ys" by (cases "sort (map fst parts)") auto
  from sort_hd_Min[OF s] s show ?thesis by (simp add: pick_first_part_def)
qed


lemma zip_read_map_graph:
  "zip_read (map (\<lambda>n. (n, f n)) xs) n = (if n \<in> set xs then Some (f n) else None)"
  by (induction xs) (auto simp: zip_read_def map_add_def split: option.splits)

lemma classify_header1: "is_header_footer_part ''word/header1.xml''"
  by (simp add: is_header_footer_part_def startswith_def endswith_def)

lemma classify_footer1: "is_header_footer_part ''word/footer1.xml''"
  by (simp add: is_header_footer_part_def startswith_def endswith_def)

lemma classify_header1_rels: "is_header_footer_rels ''word/_rels/header1.xml.rels''"
  by (simp add: is_header_footer_rels_def startswith_def endswith_def basename_def)

lemma classify_footer1_rels: "is_header_footer_rels ''word/_rels/footer1.xml.rels''"
  by (simp add: is_header_footer_rels_def startswith_def endswith_def basename_def)

lemma passthrough_not_canonical:
  "passthrough n \<Longrightarrow> n \<noteq> ''word/header1.xml'' \<and> n \<noteq> ''word/footer1.xml''
     \<and> n \<noteq> ''word/_rels/header1.xml.rels'' \<and> n \<noteq> ''word/_rels/footer1.xml.rels''"
  using classify_header1 classify_footer1 classify_header1_rels classify_footer1_rels
  by (auto simp: passthrough_def)

lemma stage_parts_cases:
  assumes "stage_parts src tpl = Inr (st, hb, fb)"
  obtains st0 h f out1 hn fn where
    "copy_loop src (namelist src) staged0 = Inr st0"
    "collect_loop tpl (namelist tpl) ([], []) = Inr (h, f)"
    "pick_first_part h = (hn, hb)" "pick_first_part f = (fn, fb)"
    "media_loop tpl (namelist tpl) (out_zip st0) = Inr out1"
    "st = st0\<lparr>out_zip :=
       write_part tpl (write_part tpl out1 ''word/header1.xml'' ''word/_rels/header1.xml.rels'' hn hb)
         ''word/footer1.xml'' ''word/_rels/footer1.xml.rels'' fn fb\<rparr>"
  using assms
  unfolding stage_parts_def collect_headers_footers_from_template_def ensure_media_dependencies_def
  by (auto simp: Let_def split: sum.splits prod.splits)

lemma edit_parts_entries:
  "edit_parts fromstring tostring st hh hf = Inr r \<Longrightarrow>
   entries r = writestr (writestr (writestr (out_zip st) ''[Content_Types].xml'' (tostring (ct_root r)))
      ''word/_rels/document.xml.rels'' (tostring (rels_root r))) ''word/document.xml'' (tostring (doc_root r))"
  unfolding edit_parts_def
  by (auto simp: Let_def split: sum.splits prod.splits)


lemma copied_read:
  assumes "copy_loop src (namelist src) staged0 = Inr st0"
  shows "zip_read (out_zip st0) n =
     (if n \<in> set (namelist src) \<and> passthrough n then zip_read src n else None)"
proof -
  have o: "out_zip st0 = map (\<lambda>n. (n, the (zip_read src n))) (filter passthrough (namelist src))"
    using copy_loop_out[OF assms] by (simp add: staged0_def)
  show ?thesis
  proof (cases "n \<in> set (namelist src) \<and> passthrough n")
    case True
    then obtain b where "zip_read src n = Some b"
      using zip_read_None_iff[of src n] by (cases "zip_read src n") auto
    with True show ?thesis by (simp add: o zip_read_map_graph)
  next
    case False
    then show ?thesis by (auto simp: o zip_read_map_graph)
  qed
qed

lemma copied_names:
  assumes "copy_loop src (namelist src) staged0 = Inr st0"
  shows "set (namelist (out_zip st0)) = {n \<in> set (namelist src). passthrough n}"
proof -
  have o: "out_zip st0 = map (\<lambda>n. (n, the (zip_read src n))) (filter passthrough (namelist src))"
    using copy_loop_out[OF assms] by (simp add: staged0_def)
  have "namelist (out_zip st0) = filter passthrough (namelist src)"
    unfolding o namelist_def by (simp add: comp_def)
  then show ?thesis by auto
qed

lemma staged_read_passthrough:
  assumes s: "stage_parts src tpl = Inr (st, hb, fb)"
    and p: "passthrough n" and m: "n \<in> set (namelist src)"
  shows "zip_read (out_zip st) n = zip_read src n"
proof -
  from s obtain st0 h f out1 hn fn where
    c: "copy_loop src (namelist src) staged0 = Inr st0" and
    md: "media_loop tpl (namelist tpl) (out_zip st0) = Inr out1" and
    st: "st = st0\<lparr>out_zip :=
       write_part tpl (write_part tpl out1 ''word/header1.xml'' ''word/_rels/header1.xml.rels'' hn hb)
         ''word/footer1.xml'' ''word/_rels/footer1.xml.rels'' fn fb\<rparr>"
    by (rule stage_parts_cases)
  have nc: "n \<noteq> ''word/header1.xml'' \<and> n \<noteq> ''word/footer1.xml''
     \<and> n \<noteq> ''word/_rels/header1.xml.rels'' \<and> n \<noteq> ''word/_rels/footer1.xml.rels''"
    using p by (rule passthrough_not_canonical)
  have "n \<in> set (namelist (out_zip st0))" using copied_names[OF c] p m by simp
  then have "zip_read out1 n = zip_read (out_zip st0) n"
    using media_loop_read[OF md, of n] by simp
  also have "\<dots> = zip_read src n" using copied_read[OF c, of n] p m by simp
  finally have "zip_read out1 n = zip_read src n" .
  then show ?thesis using nc by (simp add: st write_part_read_other)
qed

lemma replace_cases:
  assumes "replace_header_footer_parts fromstring tostring src tpl = Inr r"
  obtains st hb fb where "stage_parts src tpl = Inr (st, hb, fb)"
    "edit_parts fromstring tostring st (hb \<noteq> None) (fb \<noteq> None) = Inr r"
  using assms unfolding replace_header_footer_parts_def
  by (auto split: sum.splits prod.splits)

lemma entries_read_other:
  assumes "replace_header_footer_parts fromstring tostring src tpl = Inr r"
    "stage_parts src tpl = Inr (st, hb, fb)"
    "n \<noteq> ''[Content_Types].xml''" "n \<noteq> ''word/_rels/document.xml.rels''" "n \<noteq> ''word/document.xml''"
  shows "zip_read (entries r) n = zip_read (out_zip st) n"
proof -
  from assms(1) obtain st' hb' fb' where a: "stage_parts src tpl = Inr (st', hb', fb')"
    and b: "edit_parts fromstring tostring st' (hb' \<noteq> None) (fb' \<noteq> None) = Inr r"
    by (rule replace_cases)
  from a assms(2) have "st' = st" by simp
  with edit_parts_entries[OF b] assms(3-5) show ?thesis by (simp add: zip_read_writestr)
qed


lemma media_passthrough: "startswith n ''word/media/'' \<Longrightarrow> passthrough n"
  by (auto simp: passthrough_def is_header_footer_part_def is_header_footer_rels_def startswith_def)

lemma header1_not_media: "\<not> startswith ''word/header1.xml'' ''word/media/''"
  by (simp add: startswith_def)

lemma footer1_not_media: "\<not> startswith ''word/footer1.xml'' ''word/media/''"
  by (simp add: startswith_def)

lemma not_passthrough_header1: "\<not> passthrough ''word/header1.xml''"
  using classify_header1 by (simp add: passthrough_def)

lemma not_passthrough_footer1: "\<not> passthrough ''word/footer1.xml''"
  using classify_footer1 by (simp add: passthrough_def)

lemma picked_bytes:
  assumes "collect_loop tpl (namelist tpl) ([], []) = Inr (h, f)"
  shows "snd (pick_first_part h) =
           (if {n \<in> set (namelist tpl). is_header_name n} = {} then None
            else zip_read tpl (Min {n \<in> set (namelist tpl). is_header_name n}))"
    and "snd (pick_first_part f) =
           (if {n \<in> set (namelist tpl). is_footer_name n} = {} then None
            else zip_read tpl (Min {n \<in> set (namelist tpl). is_footer_name n}))"
proof -
  let ?H = "{n \<in> set (namelist tpl). is_header_name n}"
  let ?F = "{n \<in> set (namelist tpl). is_footer_name n}"
  from collect_loop_headers[OF assms] have kh: "fst ` set h = ?H"
    and mh: "\<And>n. n \<in> ?H \<Longrightarrow> map_of h n = zip_read tpl n" by auto
  from collect_loop_footers[OF assms] have kf: "fst ` set f = ?F"
    and mf: "\<And>n. n \<in> ?F \<Longrightarrow> map_of f n = zip_read tpl n" by auto
  have fin: "finite ?H" "finite ?F" by auto
  show "snd (pick_first_part h) = (if ?H = {} then None else zip_read tpl (Min ?H))"
  proof (cases "?H = {}")
    case True
    with kh have "map fst h = []" by auto
    with True show ?thesis by (simp add: pick_first_part_empty)
  next
    case False
    then have "Min ?H \<in> ?H" using fin(1) by (rule Min_in[rotated])
    with False kh mh[of "Min ?H"] pick_first_part_nonempty[of h] show ?thesis by auto
  qed
  show "snd (pick_first_part f) = (if ?F = {} then None else zip_read tpl (Min ?F))"
  proof (cases "?F = {}")
    case True
    with kf have "map fst f = []" by auto
    with True show ?thesis by (simp add: pick_first_part_empty)
  next
    case False
    then have "Min ?F \<in> ?F" using fin(2) by (rule Min_in[rotated])
    with False kf mf[of "Min ?F"] pick_first_part_nonempty[of f] show ?thesis by auto
  qed
qed


lemma staged_picks:
  assumes "stage_parts src tpl = Inr (st, hb, fb)"
  shows "hb = (if {n \<in> set (namelist tpl). is_header_name n} = {} then None
               else zip_read tpl (Min {n \<in> set (namelist tpl). is_header_name n}))"
    and "fb = (if {n \<in> set (namelist tpl). is_footer_name n} = {} then None
               else zip_read tpl (Min {n \<in> set (namelist tpl). is_footer_name n}))"
proof -
  from assms obtain st0 h f out1 hn fn where
    c: "collect_loop tpl (namelist tpl) ([], []) = Inr (h, f)" and
    ph: "pick_first_part h = (hn, hb)" and pf: "pick_first_part f = (fn, fb)"
    by (rule stage_parts_cases)
  from picked_bytes(1)[OF c] ph
  show "hb = (if {n \<in> set (namelist tpl). is_header_name n} = {} then None
               else zip_read tpl (Min {n \<in> set (namelist tpl). is_header_name n}))" by simp
  from picked_bytes(2)[OF c] pf
  show "fb = (if {n \<in> set (namelist tpl). is_footer_name n} = {} then None
               else zip_read tpl (Min {n \<in> set (namelist tpl). is_footer_name n}))" by simp
qed

lemma staged_read_media:
  assumes s: "stage_parts src tpl = Inr (st, hb, fb)"
    and md: "startswith n ''word/media/''" and m: "n \<in> set (namelist tpl)"
  shows "zip_read (out_zip st) n =
           (if n \<in> set (namelist src) then zip_read src n else zip_read tpl n)"
proof -
  from s obtain st0 h f out1 hn fn where
    c: "copy_loop src (namelist src) staged0 = Inr st0" and
    ml: "media_loop tpl (namelist tpl) (out_zip st0) = Inr out1" and
    st: "st = st0\<lparr>out_zip :=
       write_part tpl (write_part tpl out1 ''word/header1.xml'' ''word/_rels/header1.xml.rels'' hn hb)
         ''word/footer1.xml'' ''word/_rels/footer1.xml.rels'' fn fb\<rparr>"
    by (rule stage_parts_cases)
  have p: "passthrough n" using md by (rule media_passthrough)
  have nc: "n \<noteq> ''word/header1.xml'' \<and> n \<noteq> ''word/footer1.xml''
     \<and> n \<noteq> ''word/_rels/header1.xml.rels'' \<and> n \<noteq> ''word/_rels/footer1.xml.rels''"
    using p by (rule passthrough_not_canonical)
  have "zip_read out1 n = (if n \<in> set (namelist src) then zip_read src n else zip_read tpl n)"
    using media_loop_read[OF ml, of n] copied_names[OF c] copied_read[OF c, of n] p md m
    by simp
  then show ?thesis using nc by (simp add: st write_part_read_other)
qed

lemma staged_read_canonical:
  assumes s: "stage_parts src tpl = Inr (st, hb, fb)"
  shows "zip_read (out_zip st) ''word/header1.xml'' = hb"
    and "zip_read (out_zip st) ''word/footer1.xml'' = fb"
proof -
  from s obtain st0 h f out1 hn fn where
    c: "copy_loop src (namelist src) staged0 = Inr st0" and
    ml: "media_loop tpl (namelist tpl) (out_zip st0) = Inr out1" and
    st: "st = st0\<lparr>out_zip :=
       write_part tpl (write_part tpl out1 ''word/header1.xml'' ''word/_rels/header1.xml.rels'' hn hb)
         ''word/footer1.xml'' ''word/_rels/footer1.xml.rels'' fn fb\<rparr>"
    by (rule stage_parts_cases)
  have h0: "zip_read out1 ''word/header1.xml'' = None"
    using media_loop_read[OF ml, of "''word/header1.xml''"]
      copied_read[OF c, of "''word/header1.xml''"] header1_not_media not_passthrough_header1
    by simp
  have f0: "zip_read out1 ''word/footer1.xml'' = None"
    using media_loop_read[OF ml, of "''word/footer1.xml''"]
      copied_read[OF c, of "''word/footer1.xml''"] footer1_not_media not_passthrough_footer1
    by simp
  have "zip_read (write_part tpl out1 ''word/header1.xml'' ''word/_rels/header1.xml.rels'' hn hb)
      ''word/header1.xml'' = hb"
    using h0 by (simp add: write_part_read_canonical split: option.splits)
  then show "zip_read (out_zip st) ''word/header1.xml'' = hb"
    by (simp add: st write_part_read_other)
  have "zip_read (write_part tpl out1 ''word/header1.xml'' ''word/_rels/header1.xml.rels'' hn hb)
      ''word/footer1.xml'' = None"
    using f0 by (simp add: write_part_read_other)
  then show "zip_read (out_zip st) ''word/footer1.xml'' = fb"
    by (simp add: st write_part_read_canonical split: option.splits)
qed

lemma smallest_name:
  assumes "{n \<in> set ns. P n} \<noteq> {}"
  shows "Min {n \<in> set ns. P n} \<in> set ns \<and> P (Min {n \<in> set ns. P n})
         \<and> (\<forall>n \<in> set ns. P n \<longrightarrow> Min {n \<in> set ns. P n} \<le> n)"
proof -
  have fin: "finite {n \<in> set ns. P n}" by simp
  have "Min {n \<in> set ns. P n} \<in> {n \<in> set ns. P n}" using fin assms by (rule Min_in)
  moreover have "\<forall>n \<in> set ns. P n \<longrightarrow> Min {n \<in> set ns. P n} \<le> n"
    using fin by (auto intro: Min_le)
  ultimately show ?thesis by simp
qed

lemma smallest_entry:
  assumes ne: "{n \<in> set (namelist z). P n} \<noteq> {}"
    and rd: "zip_read out c = zip_read z (Min {n \<in> set (namelist z). P n})"
  shows "\<exists>m b. m \<in> set (namelist z) \<and> P m
              \<and> (\<forall>n \<in> set (namelist z). P n \<longrightarrow> m \<le> n)
              \<and> (m, b) \<in> set z \<and> zip_read z m = Some b
              \<and> zip_read out c = Some b \<and> (c, b) \<in> set out"
proof -
  let ?m = "Min {n \<in> set (namelist z). P n}"
  have p: "?m \<in> set (namelist z) \<and> P ?m \<and> (\<forall>n \<in> set (namelist z). P n \<longrightarrow> ?m \<le> n)"
    using ne by (rule smallest_name)
  then obtain b where b: "zip_read z ?m = Some b"
    using zip_read_None_iff[of z ?m] by (cases "zip_read z ?m") auto
  have "(?m, b) \<in> set z" using b by (rule zip_read_in_set)
  moreover have "zip_read out c = Some b" using rd b by simp
  moreover from this have "(c, b) \<in> set out" by (rule zip_read_in_set)
  ultimately show ?thesis using p b by blast
qed

lemma entries_read_media:
  assumes run: "replace_header_footer_parts fromstring tostring src tpl = Inr r"
    and md: "startswith n ''word/media/''" and m: "n \<in> set (namelist tpl)"
  shows "zip_read (entries r) n =
           (if n \<in> set (namelist src) then zip_read src n else zip_read tpl n)"
proof -
  from run obtain st hb fb where s: "stage_parts src tpl = Inr (st, hb, fb)"
    by (rule replace_cases)
  have p: "passthrough n" using md by (rule media_passthrough)
  then have "n \<noteq> ''[Content_Types].xml''" "n \<noteq> ''word/_rels/document.xml.rels''"
    "n \<noteq> ''word/document.xml''" by (auto simp: passthrough_def)
  from entries_read_other[OF run s this] staged_read_media[OF s md m] show ?thesis by simp
qed

lemma part_not_core:
  "is_header_footer_part n \<Longrightarrow> n \<noteq> ''[Content_Types].xml''
     \<and> n \<noteq> ''word/_rels/document.xml.rels'' \<and> n \<noteq> ''word/document.xml''
     \<and> n \<noteq> ''word/_rels/header1.xml.rels'' \<and> n \<noteq> ''word/_rels/footer1.xml.rels''
     \<and> \<not> startswith n ''word/media/''"
  by (auto simp: is_header_footer_part_def startswith_def endswith_def)

lemma staged_read_dropped:
  assumes s: "stage_parts src tpl = Inr (st, hb, fb)"
    and c: "is_header_footer_part n" and n1: "n \<noteq> ''word/header1.xml''"
    and n2: "n \<noteq> ''word/footer1.xml''"
  shows "zip_read (out_zip st) n = None"
proof -
  from s obtain st0 h f out1 hn fn where
    cp: "copy_loop src (namelist src) staged0 = Inr st0" and
    ml: "media_loop tpl (namelist tpl) (out_zip st0) = Inr out1" and
    st: "st = st0\<lparr>out_zip :=
       write_part tpl (write_part tpl out1 ''word/header1.xml'' ''word/_rels/header1.xml.rels'' hn hb)
         ''word/footer1.xml'' ''word/_rels/footer1.xml.rels'' fn fb\<rparr>"
    by (rule stage_parts_cases)
  have np: "\<not> passthrough n" using c by (simp add: passthrough_def)
  have "zip_read out1 n = None"
    using media_loop_read[OF ml, of n] copied_read[OF cp, of n] np part_not_core[OF c] by simp
  then show ?thesis using n1 n2 part_not_core[OF c] by (simp add: st write_part_read_other)
qed

lemma basename_in_word: "CHR ''/'' \<notin> set base \<Longrightarrow> basename (''word/'' @ base) = base"
proof -
  assume a: "CHR ''/'' \<notin> set base"
  then have "takeWhile (\<lambda>c. c \<noteq> CHR ''/'') (rev base) = rev base"
    by (auto intro: takeWhile_eq_all_conv[THEN iffD2])
  then show ?thesis by (simp add: basename_def takeWhile_append)
qed

lemma startswith_append: "startswith (p @ s) (p @ q) = startswith s q"
  by (simp add: startswith_def)

lemma startswith_length: "startswith s q \<Longrightarrow> length q \<le> length s"
proof -
  assume "startswith s q"
  then have "length (take (length q) s) = length q" by (simp add: startswith_def)
  then show ?thesis by simp
qed

lemma endswith_append: "length q \<le> length s \<Longrightarrow> endswith (p @ s) q = endswith s q"
  by (simp add: endswith_def)

lemma part_in_word:
  "is_header_footer_part (''word/'' @ base) \<longleftrightarrow>
     (startswith base ''header'' \<or> startswith base ''footer'') \<and> endswith base ''.xml''"
proof -
  have h: "startswith (''word/'' @ base) ''word/header'' = startswith base ''header''"
    using startswith_append[of "''word/''" base "''header''"] by simp
  have f: "startswith (''word/'' @ base) ''word/footer'' = startswith base ''footer''"
    using startswith_append[of "''word/''" base "''footer''"] by simp
  have e: "endswith (''word/'' @ base) ''.xml'' = endswith base ''.xml''"
    if "startswith base ''header'' \<or> startswith base ''footer''"
  proof -
    from that have "6 \<le> length base" using startswith_length by fastforce
    then have "length ''.xml'' \<le> length base" by simp
    then show ?thesis by (rule endswith_append)
  qed
  show ?thesis unfolding is_header_footer_part_def h f using e by blast
qed

lemma copy_step_fields:
  "copy_step src n st = Inr st1 \<Longrightarrow>
   doc_xml_bytes st1 = (if n = ''word/document.xml'' then zip_read src n else doc_xml_bytes st)
   \<and> doc_rels_bytes st1 =
       (if n = ''word/_rels/document.xml.rels'' then zip_read src n else doc_rels_bytes st)
   \<and> content_types_bytes st1 =
       (if n = ''[Content_Types].xml'' then zip_read src n else content_types_bytes st)"
  unfolding copy_step_def writestr_def
  by (cases "zip_read src n") (auto split: if_splits)

lemma copy_loop_fields:
  "copy_loop src ns st = Inr st' \<Longrightarrow>
   doc_xml_bytes st' =
     (if ''word/document.xml'' \<in> set ns then zip_read src ''word/document.xml'' else doc_xml_bytes st)
   \<and> doc_rels_bytes st' =
     (if ''word/_rels/document.xml.rels'' \<in> set ns then zip_read src ''word/_rels/document.xml.rels''
      else doc_rels_bytes st)
   \<and> content_types_bytes st' =
     (if ''[Content_Types].xml'' \<in> set ns then zip_read src ''[Content_Types].xml''
      else content_types_bytes st)"
proof (induction ns arbitrary: st)
  case Nil
  then show ?case by simp
next
  case (Cons n ns)
  then obtain st1 where s1: "copy_step src n st = Inr st1" and s2: "copy_loop src ns st1 = Inr st'"
    by (cases "copy_step src n st") simp_all
  show ?case
    using Cons.IH[OF s2] copy_step_fields[OF s1] by auto
qed

lemma staged_fields:
  assumes "stage_parts src tpl = Inr (st, hb, fb)"
  shows "doc_xml_bytes st = zip_read src ''word/document.xml''
     \<and> doc_rels_bytes st = zip_read src ''word/_rels/document.xml.rels''
     \<and> content_types_bytes st = zip_read src ''[Content_Types].xml''"
proof -
  from assms obtain st0 h f out1 hn fn where
    c: "copy_loop src (namelist src) staged0 = Inr st0" and
    st: "st = st0\<lparr>out_zip :=
       write_part tpl (write_part tpl out1 ''word/header1.xml'' ''word/_rels/header1.xml.rels'' hn hb)
         ''word/footer1.xml'' ''word/_rels/footer1.xml.rels'' fn fb\<rparr>"
    by (rule stage_parts_cases)
  have n: "\<And>k. k \<notin> set (namelist src) \<Longrightarrow> zip_read src k = None"
    by (simp add: zip_read_None_iff)
  show ?thesis
    using copy_loop_fields[OF c] n by (auto simp: st staged0_def)
qed


lemma edit_parts_cases:
  assumes "edit_parts fromstring tostring st hh hf = Inr r"
  obtains rels0 doc0 ct0 where
    "parse_or fromstring (doc_rels_bytes st) (new_element (qname REL_NS ''Relationships'')) = Inr rels0"
    "edit_rels rels0 hh hf = (rels_root r, header_rel_id r, footer_rel_id r)"
    "parse_or fromstring (doc_xml_bytes st) minimal_document = Inr doc0"
    "doc_root r = edit_doc (new_references (header_rel_id r) (footer_rel_id r)) doc0"
    "parse_or fromstring (content_types_bytes st) (new_element (qname CT_NS ''Types'')) = Inr ct0"
    "ct_root r = edit_content_types ct0 hh hf"
  using assms unfolding edit_parts_def
  by (auto simp: Let_def split: sum.splits prod.splits)

lemma staged_has_part:
  assumes "stage_parts src tpl = Inr (st, hb, fb)"
  shows "(hb \<noteq> None) = ({n \<in> set (namelist tpl). is_header_name n} \<noteq> {})"
    and "(fb \<noteq> None) = ({n \<in> set (namelist tpl). is_footer_name n} \<noteq> {})"
proof -
  have a: "zip_read tpl (Min {n \<in> set (namelist tpl). P n}) \<noteq> None"
    if "{n \<in> set (namelist tpl). P n} \<noteq> {}" for P
    using smallest_name[OF that] by (simp add: zip_read_None_iff)
  show "(hb \<noteq> None) = ({n \<in> set (namelist tpl). is_header_name n} \<noteq> {})"
    using staged_picks(1)[OF assms] a[of is_header_name] by (auto split: if_splits)
  show "(fb \<noteq> None) = ({n \<in> set (namelist tpl). is_footer_name n} \<noteq> {})"
    using staged_picks(2)[OF assms] a[of is_footer_name] by (auto split: if_splits)
qed

lemma replace_trees:
  assumes run: "replace_header_footer_parts fromstring tostring src tpl = Inr r"
  obtains rels0 doc0 ct0 where
    "parse_or fromstring (zip_read src ''word/_rels/document.xml.rels'')
       (new_element (qname REL_NS ''Relationships'')) = Inr rels0"
    "edit_rels rels0 ({n \<in> set (namelist tpl). is_header_name n} \<noteq> {})
       ({n \<in> set (namelist tpl). is_footer_name n} \<noteq> {})
       = (rels_root r, header_rel_id r, footer_rel_id r)"
    "parse_or fromstring (zip_read src ''word/document.xml'') minimal_document = Inr doc0"
    "doc_root r = edit_doc (new_references (header_rel_id r) (footer_rel_id r)) doc0"
    "parse_or fromstring (zip_read src ''[Content_Types].xml'')
       (new_element (qname CT_NS ''Types'')) = Inr ct0"
    "ct_root r = edit_content_types ct0 ({n \<in> set (namelist tpl). is_header_name n} \<noteq> {})
       ({n \<in> set (namelist tpl). is_footer_name n} \<noteq> {})"
proof -
  from run obtain st hb fb where s: "stage_parts src tpl = Inr (st, hb, fb)"
    and e: "edit_parts fromstring tostring st (hb \<noteq> None) (fb \<noteq> None) = Inr r"
    by (rule replace_cases)
  from e obtain rels0 doc0 ct0 where
    "parse_or fromstring (doc_rels_bytes st) (new_element (qname REL_NS ''Relationships'')) = Inr rels0"
    "edit_rels rels0 (hb \<noteq> None) (fb \<noteq> None) = (rels_root r, header_rel_id r, footer_rel_id r)"
    "parse_or fromstring (doc_xml_bytes st) minimal_document = Inr doc0"
    "doc_root r = edit_doc (new_references (header_rel_id r) (footer_rel_id r)) doc0"
    "parse_or fromstring (content_types_bytes st) (new_element (qname CT_NS ''Types'')) = Inr ct0"
    "ct_root r = edit_content_types ct0 (hb \<noteq> None) (fb \<noteq> None)"
    by (rule edit_parts_cases)
  then show ?thesis
    using that staged_fields[OF s] staged_has_part[OF s] by simp
qed

definition manifest_ids :: "element \<Rightarrow> string list" where
  "manifest_ids root =
     List.map_filter (\<lambda>rel. get_attr rel ''Id'') (filter is_relationship (children root))"

lemma new_rid_loop_fresh:
  "new_rid_loop used_ids i \<notin> set used_ids \<and> (\<exists>k\<ge>i. new_rid_loop used_ids i = rid k)"
proof (induction used_ids i rule: new_rid_loop.induct)
  case (1 used_ids i)
  show ?case
  proof (cases "rid i \<in> set used_ids")
    case True
    with 1 have "new_rid_loop used_ids (i + 1) \<notin> set used_ids
        \<and> (\<exists>k\<ge>i + 1. new_rid_loop used_ids (i + 1) = rid k)" by simp
    moreover have "new_rid_loop used_ids i = new_rid_loop used_ids (i + 1)"
      using True by (subst new_rid_loop.simps) simp
    ultimately show ?thesis by (metis add_leD1)
  next
    case False
    then have "new_rid_loop used_ids i = rid i" by (subst new_rid_loop.simps) simp
    with False show ?thesis by auto
  qed
qed

lemma collect_used_ids_set:
  "set (collect_used_ids rels used_ids) =
     set used_ids \<union> {i. i \<noteq> [] \<and> (\<exists>rel\<in>set rels. is_relationship rel \<and> get_attr rel ''Id'' = Some i)}"
  by (induction rels arbitrary: used_ids) (auto split: option.splits)

lemma manifest_ids_set:
  "set (manifest_ids root) =
     {i. \<exists>rel\<in>set (children root). is_relationship rel \<and> get_attr rel ''Id'' = Some i}"
  unfolding manifest_ids_def by (force simp: List.map_filter_def)

lemma used_ids_manifest:
  "set (collect_used_ids (children root) []) = set (manifest_ids root) - {[]}"
  by (auto simp: collect_used_ids_set manifest_ids_set)

lemma relationship_props:
  "is_relationship (relationship r rtype target)"
  "get_attr (relationship r rtype target) ''Id'' = Some r"
  "get_attr_default (relationship r rtype target) ''Type'' d = rtype"
  "tag (relationship r rtype target) = qname REL_NS ''Relationship''"
  by (simp_all add: relationship_def is_relationship_def set_attr_def new_element_def
      get_attr_def get_attr_default_def qname_def endswith_def map_of_dict_set)

lemma edit_rels_result:
  assumes "edit_rels rels0 hh hf = (r3, hid, fid)"
  defines "used0 \<equiv> collect_used_ids (children rels0) []"
  defines "h \<equiv> new_rid_loop used0 9001"
  defines "used1 \<equiv> (if hh then List.insert h used0 else used0)"
  defines "f \<equiv> new_rid_loop used1 9001"
  shows "hid = (if hh then Some h else None)"
    and "fid = (if hf then Some f else None)"
    and "children r3 = filter (\<lambda>rel. \<not> is_header_footer_rel rel) (children rels0)
            @ (if hh then [relationship h HEADER_REL_TYPE ''header1.xml''] else [])
            @ (if hf then [relationship f FOOTER_REL_TYPE ''footer1.xml''] else [])"
    and "tag r3 = tag rels0" and "attrib r3 = attrib rels0"
  using assms(1) unfolding edit_rels_def used0_def h_def used1_def f_def
  by (auto simp: Let_def new_rid_def add_relationship_def append_child_def
      strip_header_footer_rels_def set_children_def split: if_splits)

lemma manifest_ids_children:
  "children root = cs \<Longrightarrow>
   manifest_ids root = List.map_filter (\<lambda>rel. get_attr rel ''Id'') (filter is_relationship cs)"
  by (simp add: manifest_ids_def)

lemma map_filter_append:
  "List.map_filter g (xs @ ys) = List.map_filter g xs @ List.map_filter g ys"
  by (simp add: List.map_filter_def)

lemma kept_ids_subset:
  "set (List.map_filter (\<lambda>rel. get_attr rel ''Id'')
      (filter is_relationship (filter (\<lambda>rel. \<not> is_header_footer_rel rel) (children rels0))))
   \<subseteq> set (manifest_ids rels0)"
  by (auto simp: manifest_ids_def List.map_filter_def)

lemma distinct_map_filter_filter:
  "distinct (List.map_filter g (filter p xs)) \<Longrightarrow>
   distinct (List.map_filter g (filter p (filter q xs)))"
proof (induction xs)
  case Nil
  then show ?case by simp
next
  case (Cons x xs)
  have sub: "set (List.map_filter g (filter p (filter q xs))) \<subseteq> set (List.map_filter g (filter p xs))"
    by (auto simp: List.map_filter_def)
  from Cons show ?case using sub
    by (auto simp: List.map_filter_simps split: option.splits if_splits)
qed

lemma kept_ids_distinct:
  "distinct (manifest_ids rels0) \<Longrightarrow>
   distinct (List.map_filter (\<lambda>rel. get_attr rel ''Id'')
      (filter is_relationship (filter (\<lambda>rel. \<not> is_header_footer_rel rel) (children rels0))))"
  unfolding manifest_ids_def by (rule distinct_map_filter_filter)

lemma rid_not_empty: "rid k \<noteq> []"
  by (simp add: rid_def)

lemma edit_rels_ids:
  assumes e: "edit_rels rels0 hh hf = (r3, hid, fid)"
    and d: "distinct (manifest_ids rels0)"
  shows "distinct (manifest_ids r3)"
    and "\<And>i. hid = Some i \<Longrightarrow> (\<exists>n\<ge>9001. i = rid n) \<and> i \<notin> set (manifest_ids rels0)"
    and "\<And>i. fid = Some i \<Longrightarrow> (\<exists>n\<ge>9001. i = rid n) \<and> i \<notin> set (manifest_ids rels0)"
    and "\<And>i j. hid = Some i \<Longrightarrow> fid = Some j \<Longrightarrow> i \<noteq> j"
    and "manifest_ids r3 =
           List.map_filter (\<lambda>rel. get_attr rel ''Id'')
             (filter is_relationship (filter (\<lambda>rel. \<not> is_header_footer_rel rel) (children rels0)))
           @ (case hid of None \<Rightarrow> [] | Some i \<Rightarrow> [i]) @ (case fid of None \<Rightarrow> [] | Some i \<Rightarrow> [i])"
proof -
  define used0 where "used0 = collect_used_ids (children rels0) []"
  define h where "h = new_rid_loop used0 9001"
  define used1 where "used1 = (if hh then List.insert h used0 else used0)"
  define f where "f = new_rid_loop used1 9001"
  have r: "hid = (if hh then Some h else None)" "fid = (if hf then Some f else None)"
    "children r3 = filter (\<lambda>rel. \<not> is_header_footer_rel rel) (children rels0)
            @ (if hh then [relationship h HEADER_REL_TYPE ''header1.xml''] else [])
            @ (if hf then [relationship f FOOTER_REL_TYPE ''footer1.xml''] else [])"
    using edit_rels_result(1-3)[OF e] unfolding used0_def h_def used1_def f_def by simp_all
  have u0: "set used0 = set (manifest_ids rels0) - {[]}"
    unfolding used0_def by (rule used_ids_manifest)
  obtain n where n: "n \<ge> 9001" "h = rid n" and hf: "h \<notin> set used0"
    using new_rid_loop_fresh[of used0 9001] unfolding h_def by auto
  obtain m where m: "m \<ge> 9001" "f = rid m" and ff: "f \<notin> set used1"
    using new_rid_loop_fresh[of used1 9001] unfolding f_def by auto
  have hm: "h \<notin> set (manifest_ids rels0)" using hf u0 n rid_not_empty by auto
  have "set used0 \<subseteq> set used1" unfolding used1_def by auto
  then have fm: "f \<notin> set (manifest_ids rels0)" using ff u0 m rid_not_empty by auto
  have fh: "hh \<Longrightarrow> f \<noteq> h" using ff unfolding used1_def by auto
  show ids: "manifest_ids r3 =
           List.map_filter (\<lambda>rel. get_attr rel ''Id'')
             (filter is_relationship (filter (\<lambda>rel. \<not> is_header_footer_rel rel) (children rels0)))
           @ (case hid of None \<Rightarrow> [] | Some i \<Rightarrow> [i]) @ (case fid of None \<Rightarrow> [] | Some i \<Rightarrow> [i])"
    unfolding manifest_ids_children[OF r(3)] r(1) r(2)
    by (simp add: map_filter_append relationship_props List.map_filter_def)
  show "\<And>i. hid = Some i \<Longrightarrow> (\<exists>n\<ge>9001. i = rid n) \<and> i \<notin> set (manifest_ids rels0)"
    using r(1) n hm by (auto split: if_splits)
  show "\<And>i. fid = Some i \<Longrightarrow> (\<exists>n\<ge>9001. i = rid n) \<and> i \<notin> set (manifest_ids rels0)"
    using r(2) m fm by (auto split: if_splits)
  show "\<And>i j. hid = Some i \<Longrightarrow> fid = Some j \<Longrightarrow> i \<noteq> j"
    using r(1) r(2) fh by (auto split: if_splits)
  show "distinct (manifest_ids r3)"
    unfolding ids r(1) r(2)
    using kept_ids_distinct[OF d] kept_ids_subset[of rels0] hm fm fh
    by (auto split: if_splits)
qed


lemma entries_read_core:
  assumes run: "replace_header_footer_parts fromstring tostring src tpl = Inr r"
  shows "zip_read (entries r) ''[Content_Types].xml'' = Some (tostring (ct_root r))"
    and "zip_read (entries r) ''word/_rels/document.xml.rels'' = Some (tostring (rels_root r))"
    and "zip_read (entries r) ''word/document.xml'' = Some (tostring (doc_root r))"
proof -
  from run obtain st hb fb where s: "stage_parts src tpl = Inr (st, hb, fb)"
    and e: "edit_parts fromstring tostring st (hb \<noteq> None) (fb \<noteq> None) = Inr r"
    by (rule replace_cases)
  show "zip_read (entries r) ''[Content_Types].xml'' = Some (tostring (ct_root r))"
    and "zip_read (entries r) ''word/_rels/document.xml.rels'' = Some (tostring (rels_root r))"
    and "zip_read (entries r) ''word/document.xml'' = Some (tostring (doc_root r))"
    unfolding edit_parts_entries[OF e] by (simp_all add: zip_read_writestr)
qed

definition sections :: "element \<Rightarrow> element list" where
  "sections doc =
     (case find_child doc (qname NS_w ''body'') of
        None \<Rightarrow> []
      | Some body \<Rightarrow> findall_descendants body (qname NS_w ''sectPr''))"

lemma edit_rels_manifest:
  assumes e: "edit_rels rels0 hh hf = (r3, hid, fid)"
  shows "manifest_ids r3 =
           List.map_filter (\<lambda>rel. get_attr rel ''Id'')
             (filter is_relationship (filter (\<lambda>rel. \<not> is_header_footer_rel rel) (children rels0)))
           @ (case hid of None \<Rightarrow> [] | Some i \<Rightarrow> [i]) @ (case fid of None \<Rightarrow> [] | Some i \<Rightarrow> [i])"
  unfolding manifest_ids_children[OF edit_rels_result(3)[OF e]]
    edit_rels_result(1)[OF e] edit_rels_result(2)[OF e]
  by (simp add: map_filter_append relationship_props List.map_filter_def)

lemma edit_rels_allocated:
  assumes e: "edit_rels rels0 hh hf = (r3, hid, fid)"
  shows "(hid \<noteq> None) = hh" and "(fid \<noteq> None) = hf"
  using edit_rels_result(1)[OF e] edit_rels_result(2)[OF e] by auto

lemma tag_fix_sect_prs: "tag (fix_sect_prs refs e) = tag e"
  by (cases e) simp

lemma is_reference_fix_sect_prs: "is_reference (fix_sect_prs refs e) = is_reference e"
  by (simp add: is_reference_def tag_fix_sect_prs)

lemma descendants_childless: "children c = [] \<Longrightarrow> descendants c = []"
  by (cases c) simp

lemma set_descendants:
  "set (descendants (Element t a tx tl0 cs)) = (\<Union>c\<in>set cs. insert c (set (descendants c)))"
  by auto

lemma filter_reference_fixed:
  "filter is_reference (map (fix_sect_prs refs) (filter (\<lambda>c. \<not> is_reference c) cs)) = []"
  by (induction cs) (auto simp: is_reference_fix_sect_prs)

lemma fix_sect_prs_sections:
  assumes refs: "\<forall>c\<in>set refs. is_reference c \<and> children c = [] \<and> tag c \<noteq> qname NS_w ''sectPr''"
  shows "(tag (fix_sect_prs refs e) = qname NS_w ''sectPr'' \<longrightarrow>
            filter is_reference (children (fix_sect_prs refs e)) = refs)
         \<and> (\<forall>s\<in>set (descendants (fix_sect_prs refs e)). tag s = qname NS_w ''sectPr'' \<longrightarrow>
            filter is_reference (children s) = refs)"
proof (induction e)
  case (Element t a tx tl0 cs)
  have fr: "filter is_reference refs = refs" using refs by (simp add: filter_id_conv)
  have rd: "\<And>c s. c \<in> set refs \<Longrightarrow> s \<in> insert c (set (descendants c)) \<Longrightarrow>
      tag s \<noteq> qname NS_w ''sectPr''"
    using refs by (auto simp: descendants_childless)
  have ih: "\<And>c s. c \<in> set cs \<Longrightarrow> s \<in> insert (fix_sect_prs refs c) (set (descendants (fix_sect_prs refs c)))
      \<Longrightarrow> tag s = qname NS_w ''sectPr'' \<Longrightarrow> filter is_reference (children s) = refs"
    using Element.IH by auto
  show ?case
  proof (cases "t = qname NS_w ''sectPr''")
    case True
    have "filter is_reference (children (fix_sect_prs refs (Element t a tx tl0 cs))) = refs"
      using True by (simp add: filter_reference_fixed fr)
    moreover have "\<forall>s\<in>set (descendants (fix_sect_prs refs (Element t a tx tl0 cs))).
        tag s = qname NS_w ''sectPr'' \<longrightarrow> filter is_reference (children s) = refs"
    proof (intro ballI impI)
      fix s assume s: "s \<in> set (descendants (fix_sect_prs refs (Element t a tx tl0 cs)))"
        and ts: "tag s = qname NS_w ''sectPr''"
      have "fix_sect_prs refs (Element t a tx tl0 cs) = Element t a tx tl0
          (map (fix_sect_prs refs) (filter (\<lambda>c. \<not> is_reference c) cs) @ refs)"
        using True by simp
      with s have "s \<in> (\<Union>c\<in>set (map (fix_sect_prs refs) (filter (\<lambda>c. \<not> is_reference c) cs) @ refs).
          insert c (set (descendants c)))"
        by (simp only: set_descendants)
      then obtain c where
        c: "c \<in> set (map (fix_sect_prs refs) (filter (\<lambda>c. \<not> is_reference c) cs) @ refs)"
        and sc: "s \<in> insert c (set (descendants c))"
        by blast
      show "filter is_reference (children s) = refs"
      proof (cases "c \<in> set refs")
        case True
        with rd sc ts show ?thesis by blast
      next
        case False
        with c obtain c0 where "c0 \<in> set cs" "c = fix_sect_prs refs c0" by auto
        with ih sc ts show ?thesis by blast
      qed
    qed
    ultimately show ?thesis by blast
  next
    case False
    have "\<forall>s\<in>set (descendants (fix_sect_prs refs (Element t a tx tl0 cs))).
        tag s = qname NS_w ''sectPr'' \<longrightarrow> filter is_reference (children s) = refs"
    proof (intro ballI impI)
      fix s assume s: "s \<in> set (descendants (fix_sect_prs refs (Element t a tx tl0 cs)))"
        and ts: "tag s = qname NS_w ''sectPr''"
      have "fix_sect_prs refs (Element t a tx tl0 cs) = Element t a tx tl0 (map (fix_sect_prs refs) cs)"
        using False by simp
      with s have "s \<in> (\<Union>c\<in>set (map (fix_sect_prs refs) cs). insert c (set (descendants c)))"
        by (simp only: set_descendants)
      then obtain c where
        c: "c \<in> set (map (fix_sect_prs refs) cs)"
        and sc: "s \<in> insert c (set (descendants c))"
        by blast
      from c obtain c0 where "c0 \<in> set cs" "c = fix_sect_prs refs c0" by auto
      with ih sc ts show "filter is_reference (children s) = refs" by blast
    qed
    with False show ?thesis by simp
  qed
qed

lemma fix_sect_prs_keeps_section:
  "tag e = qname NS_w ''sectPr'' \<or> (\<exists>s\<in>set (descendants e). tag s = qname NS_w ''sectPr'') \<Longrightarrow>
   tag (fix_sect_prs refs e) = qname NS_w ''sectPr''
     \<or> (\<exists>s\<in>set (descendants (fix_sect_prs refs e)). tag s = qname NS_w ''sectPr'')"
proof (induction e)
  case (Element t a tx tl0 cs)
  show ?case
  proof (cases "t = qname NS_w ''sectPr''")
    case True
    then show ?thesis by simp
  next
    case False
    with Element.prems have "\<exists>s\<in>set (descendants (Element t a tx tl0 cs)). tag s = qname NS_w ''sectPr''"
      by simp
    then obtain c s where c: "c \<in> set cs" and s: "s \<in> insert c (set (descendants c))"
      and ts: "tag s = qname NS_w ''sectPr''"
      unfolding set_descendants by blast
    then have "tag c = qname NS_w ''sectPr'' \<or> (\<exists>s\<in>set (descendants c). tag s = qname NS_w ''sectPr'')"
      by auto
    from Element.IH[OF c this] obtain s' where
      "s' \<in> insert (fix_sect_prs refs c) (set (descendants (fix_sect_prs refs c)))"
      "tag s' = qname NS_w ''sectPr''" by auto
    with c have "\<exists>s\<in>set (descendants (Element t a tx tl0 (map (fix_sect_prs refs) cs))).
        tag s = qname NS_w ''sectPr''"
      unfolding set_descendants by auto
    with False show ?thesis by simp
  qed
qed

lemma new_references_props:
  "\<forall>c\<in>set (new_references hid fid).
     is_reference c \<and> children c = [] \<and> tag c \<noteq> qname NS_w ''sectPr''"
  by (auto simp: new_references_def header_reference_def footer_reference_def is_reference_def
      set_attr_def new_element_def qname_def split: option.splits)

lemma descendants_append_child:
  "descendants (append_child e c) = descendants e @ c # descendants c"
  by (cases e) (simp add: append_child_def)

lemma descendants_set_children:
  "descendants (set_children e cs) = concat (map (\<lambda>c. c # descendants c) cs)"
  by (simp add: set_children_def)

lemma descendants_children:
  "descendants e = concat (map (\<lambda>c. c # descendants c) (children e))"
  by (cases e) simp

lemma edit_body_sections:
  assumes refs: "\<forall>c\<in>set refs. is_reference c \<and> children c = [] \<and> tag c \<noteq> qname NS_w ''sectPr''"
  shows "findall_descendants (edit_body refs body) (qname NS_w ''sectPr'') \<noteq> []"
    and "\<forall>s\<in>set (findall_descendants (edit_body refs body) (qname NS_w ''sectPr'')).
           filter is_reference (children s) = refs"
    and "tag (edit_body refs body) = tag body"
proof -
  let ?S = "qname NS_w ''sectPr''"
  have fr: "filter is_reference refs = refs" using refs by (simp add: filter_id_conv)
  show "tag (edit_body refs body) = tag body"
    by (simp add: edit_body_def append_child_def set_children_def)
  show "findall_descendants (edit_body refs body) ?S \<noteq> []"
  proof (cases "findall_descendants body ?S = []")
    case True
    then show ?thesis
      by (simp add: edit_body_def findall_descendants_def descendants_append_child
          set_children_def new_element_def)
  next
    case False
    then obtain s where "s \<in> set (descendants body)" "tag s = ?S"
      by (auto simp: findall_descendants_def filter_empty_conv)
    then obtain c where c: "c \<in> set (children body)" and "s \<in> insert c (set (descendants c))"
      by (subst (asm) descendants_children) auto
    with \<open>tag s = ?S\<close> have "tag c = ?S \<or> (\<exists>s\<in>set (descendants c). tag s = ?S)" by auto
    from fix_sect_prs_keeps_section[OF this, of refs] obtain s' where
      "s' \<in> insert (fix_sect_prs refs c) (set (descendants (fix_sect_prs refs c)))" "tag s' = ?S"
      by auto
    with c have "\<exists>s\<in>set (descendants (set_children body (map (fix_sect_prs refs) (children body)))).
        tag s = ?S"
      unfolding descendants_set_children by auto
    with False show ?thesis
      by (auto simp: edit_body_def findall_descendants_def filter_empty_conv)
  qed
  show "\<forall>s\<in>set (findall_descendants (edit_body refs body) ?S).
           filter is_reference (children s) = refs"
  proof (cases "findall_descendants body ?S = []")
    case True
    have "\<And>c s. c \<in> set refs \<Longrightarrow> s \<in> insert c (set (descendants c)) \<Longrightarrow> tag s \<noteq> ?S"
      using refs by (auto simp: descendants_childless)
    then have "filter (\<lambda>c. tag c = ?S) (concat (map (\<lambda>c. c # descendants c) refs)) = []"
      by (auto simp: filter_empty_conv)
    with True have "findall_descendants (edit_body refs body) ?S
        = [set_children (new_element ?S) refs]"
      by (simp add: edit_body_def findall_descendants_def descendants_append_child
          descendants_set_children) (simp add: set_children_def new_element_def)
    then show ?thesis by (simp add: set_children_def fr)
  next
    case False
    show ?thesis
    proof (intro ballI)
      fix s assume "s \<in> set (findall_descendants (edit_body refs body) ?S)"
      with False have s: "s \<in> set (descendants (set_children body (map (fix_sect_prs refs) (children body))))"
        and ts: "tag s = ?S"
        by (auto simp: edit_body_def findall_descendants_def)
      from s obtain c where "c \<in> set (children body)"
        "s \<in> insert (fix_sect_prs refs c) (set (descendants (fix_sect_prs refs c)))"
        unfolding descendants_set_children by auto
      with fix_sect_prs_sections[OF refs, of c] ts
      show "filter is_reference (children s) = refs" by blast
    qed
  qed
qed

lemma find_map_first:
  "(\<And>x. p x \<Longrightarrow> p (f x)) \<Longrightarrow> List.find p (map_first p f xs) = map_option f (List.find p xs)"
  by (induction xs) auto

lemma find_append_new:
  "List.find p xs = None \<Longrightarrow> p c \<Longrightarrow> List.find p (xs @ [c]) = Some c"
  by (induction xs) (auto split: if_splits)

lemma edit_doc_body:
  assumes refs: "\<forall>c\<in>set refs. is_reference c \<and> children c = [] \<and> tag c \<noteq> qname NS_w ''sectPr''"
  shows "find_child (edit_doc refs doc) (qname NS_w ''body'')
     = Some (edit_body refs (case find_child doc (qname NS_w ''body'') of
                None \<Rightarrow> new_element (qname NS_w ''body'') | Some body \<Rightarrow> body))"
proof (cases "find_child doc (qname NS_w ''body'')")
  case None
  have "tag (edit_body refs (new_element (qname NS_w ''body''))) = qname NS_w ''body''"
    by (simp add: edit_body_sections(3)[OF refs] new_element_def)
  with None show ?thesis
    by (simp add: edit_doc_def find_child_def append_child_def find_append_new)
next
  case (Some body)
  have "List.find (\<lambda>c. tag c = qname NS_w ''body'')
      (map_first (\<lambda>c. tag c = qname NS_w ''body'') (edit_body refs) (children doc))
    = map_option (edit_body refs) (List.find (\<lambda>c. tag c = qname NS_w ''body'') (children doc))"
    by (rule find_map_first) (simp add: edit_body_sections(3)[OF refs])
  with Some show ?thesis
    by (simp add: edit_doc_def find_child_def set_children_def)
qed

lemma edit_doc_sections:
  assumes refs: "\<forall>c\<in>set refs. is_reference c \<and> children c = [] \<and> tag c \<noteq> qname NS_w ''sectPr''"
  shows "sections (edit_doc refs doc) \<noteq> []"
    and "\<forall>s\<in>set (sections (edit_doc refs doc)). filter is_reference (children s) = refs"
  unfolding sections_def edit_doc_body[OF refs]
  using edit_body_sections(1,2)[OF refs] by simp_all

lemma references_of_kind:
  "filter (\<lambda>c. tag c = qname NS_w ''headerReference'') (new_references hid fid)
     = (case hid of None \<Rightarrow> [] | Some h \<Rightarrow> [header_reference h])"
  "filter (\<lambda>c. tag c = qname NS_w ''footerReference'') (new_references hid fid)
     = (case fid of None \<Rightarrow> [] | Some f \<Rightarrow> [footer_reference f])"
  by (auto simp: new_references_def header_reference_def footer_reference_def
      set_attr_def new_element_def qname_def split: option.splits)

lemma findall_children_references:
  assumes "filter is_reference (children s) = refs"
  shows "findall_children s (qname NS_w ''headerReference'')
           = filter (\<lambda>c. tag c = qname NS_w ''headerReference'') refs"
    and "findall_children s (qname NS_w ''footerReference'')
           = filter (\<lambda>c. tag c = qname NS_w ''footerReference'') refs"
proof -
  have "filter (\<lambda>c. tag c = qname NS_w ''headerReference'') (filter is_reference (children s))
      = filter (\<lambda>c. tag c = qname NS_w ''headerReference'') (children s)"
    by (auto simp: is_reference_def intro: filter_cong)
  with assms show "findall_children s (qname NS_w ''headerReference'')
           = filter (\<lambda>c. tag c = qname NS_w ''headerReference'') refs"
    by (simp add: findall_children_def)
  have "filter (\<lambda>c. tag c = qname NS_w ''footerReference'') (filter is_reference (children s))
      = filter (\<lambda>c. tag c = qname NS_w ''footerReference'') (children s)"
    by (auto simp: is_reference_def intro: filter_cong)
  with assms show "findall_children s (qname NS_w ''footerReference'')
           = filter (\<lambda>c. tag c = qname NS_w ''footerReference'') refs"
    by (simp add: findall_children_def)
qed

lemma new_references_attrs:
  assumes "c \<in> set (new_references hid fid)"
  shows "get_attr c (qname NS_w ''type'') = Some ''default''"
    and "get_attr c (qname NS_r ''id'') \<in> {hid, fid}"
    and "get_attr c (qname NS_r ''id'') \<noteq> None"
  using assms
  by (auto simp: new_references_def header_reference_def footer_reference_def
      set_attr_def new_element_def qname_def get_attr_def NS_w_def NS_r_def split: option.splits)

lemma map_first_none: "\<forall>x\<in>set xs. \<not> p x \<Longrightarrow> map_first p f xs = xs"
  by (induction xs) auto

lemma map_first_append:
  "map_first p f (xs @ ys) =
     (if \<exists>x\<in>set xs. p x then map_first p f xs @ ys else xs @ map_first p f ys)"
  by (induction xs) auto

lemma length_map_first: "length (map_first p f xs) = length xs"
  by (induction xs) auto

lemma map_first_all2: "list_all2 (\<lambda>x y. y = x \<or> (p x \<and> y = f x)) xs (map_first p f xs)"
  by (induction xs) (auto simp: list_all2_same)

lemma filter_map_first_same:
  "(\<And>x. p x \<Longrightarrow> p (f x)) \<Longrightarrow> filter p (map_first p f xs) = map_first p f (filter p xs)"
  by (induction xs) auto

lemma filter_map_first_other:
  "(\<And>x. p x \<Longrightarrow> \<not> q x \<and> \<not> q (f x)) \<Longrightarrow> filter q (map_first p f xs) = filter q xs"
  by (induction xs) auto

lemma ex_map_first:
  "(\<And>x. q (f x) = q x) \<Longrightarrow> (\<exists>y\<in>set (map_first p f xs). q y) = (\<exists>x\<in>set xs. q x)"
  by (induction xs) auto

lemma is_override_for_set_type:
  "is_override_for q (set_attr c ''ContentType'' T) = is_override_for q c"
  by (simp add: is_override_for_def set_attr_def get_attr_def map_of_dict_set)

lemma override_set_type_attrs:
  "tag (set_attr c ''ContentType'' T) = tag c"
  "get_attr (set_attr c ''ContentType'' T) ''PartName'' = get_attr c ''PartName''"
  "get_attr (set_attr c ''ContentType'' T) ''ContentType'' = Some T"
  by (simp_all add: set_attr_def get_attr_def map_of_dict_set)

lemma is_override_for_new: "is_override_for q (new_override pn T) = (q = pn)"
  by (auto simp: is_override_for_def new_override_def set_attr_def new_element_def get_attr_def
      map_of_dict_set)

lemma new_override_type: "get_attr (new_override pn T) ''ContentType'' = Some T"
  by (simp add: new_override_def set_attr_def new_element_def get_attr_def map_of_dict_set)

lemma is_override_for_unique: "is_override_for p c \<Longrightarrow> is_override_for q c \<Longrightarrow> p = q"
  by (simp add: is_override_for_def)

lemma find_None_iff_ex: "(List.find p xs = None) = (\<not> (\<exists>x\<in>set xs. p x))"
  by (auto simp: find_None_iff)

lemma ensure_override_children:
  "children (ensure_override ct pn T) =
     map_first (is_override_for pn) (\<lambda>ov. set_attr ov ''ContentType'' T) (children ct)
     @ (if \<exists>c\<in>set (children ct). is_override_for pn c then [] else [new_override pn T])"
proof (cases "List.find (is_override_for pn) (children ct)")
  case None
  then have n: "\<forall>c\<in>set (children ct). \<not> is_override_for pn c" by (auto simp: find_None_iff)
  with None show ?thesis
    by (simp add: ensure_override_def append_child_def map_first_none)
next
  case (Some ov)
  then have "\<exists>c\<in>set (children ct). is_override_for pn c"
    using find_None_iff_ex[of "is_override_for pn" "children ct"] by simp
  with Some show ?thesis by (simp add: ensure_override_def set_children_def)
qed

lemma ensure_override_root:
  "tag (ensure_override ct pn T) = tag ct" "attrib (ensure_override ct pn T) = attrib ct"
  by (simp_all add: ensure_override_def append_child_def set_children_def split: option.splits)

definition update_type :: "string \<Rightarrow> string \<Rightarrow> element list \<Rightarrow> element list" where
  "update_type pn T = map_first (is_override_for pn) (\<lambda>ov. set_attr ov ''ContentType'' T)"

lemma edit_content_types_children:
  "children (edit_content_types ct0 hh hf) =
     (if hf then update_type ''/word/footer1.xml'' FOOTER_CONTENT_TYPE else id)
       ((if hh then update_type ''/word/header1.xml'' HEADER_CONTENT_TYPE else id) (children ct0))
     @ (if hh \<and> \<not> (\<exists>c\<in>set (children ct0). is_override_for ''/word/header1.xml'' c)
        then [new_override ''/word/header1.xml'' HEADER_CONTENT_TYPE] else [])
     @ (if hf \<and> \<not> (\<exists>c\<in>set (children ct0). is_override_for ''/word/footer1.xml'' c)
        then [new_override ''/word/footer1.xml'' FOOTER_CONTENT_TYPE] else [])"
proof -
  let ?H = "''/word/header1.xml''" and ?F = "''/word/footer1.xml''"
  have ex: "(\<exists>y\<in>set (update_type ?H HEADER_CONTENT_TYPE (children ct0)). is_override_for ?F y)
      = (\<exists>c\<in>set (children ct0). is_override_for ?F c)"
    unfolding update_type_def by (rule ex_map_first) (rule is_override_for_set_type)
  have nf: "\<not> is_override_for ?F (new_override ?H HEADER_CONTENT_TYPE)"
    by (simp add: is_override_for_new)
  show ?thesis
    unfolding edit_content_types_def Let_def
    by (auto simp: ensure_override_children update_type_def map_first_append map_first_none nf
        ex[unfolded update_type_def] is_override_for_new)
qed

lemma edit_content_types_root:
  "tag (edit_content_types ct0 hh hf) = tag ct0" "attrib (edit_content_types ct0 hh hf) = attrib ct0"
  by (simp_all add: edit_content_types_def Let_def ensure_override_root)

lemma update_types_all2:
  "list_all2 (\<lambda>c c'. tag c' = tag c \<and> get_attr c' ''PartName'' = get_attr c ''PartName''
        \<and> (c' = c
           \<or> is_override_for ''/word/header1.xml'' c
              \<and> c' = set_attr c ''ContentType'' HEADER_CONTENT_TYPE
           \<or> is_override_for ''/word/footer1.xml'' c
              \<and> c' = set_attr c ''ContentType'' FOOTER_CONTENT_TYPE))
     cs ((if hf then update_type ''/word/footer1.xml'' FOOTER_CONTENT_TYPE else id)
          ((if hh then update_type ''/word/header1.xml'' HEADER_CONTENT_TYPE else id) cs))"
proof -
  let ?H = "''/word/header1.xml''" and ?F = "''/word/footer1.xml''"
  let ?ys = "(if hh then update_type ?H HEADER_CONTENT_TYPE else id) cs"
  let ?zs = "(if hf then update_type ?F FOOTER_CONTENT_TYPE else id) ?ys"
  have a: "list_all2 (\<lambda>x y. y = x \<or> (is_override_for ?H x
      \<and> y = set_attr x ''ContentType'' HEADER_CONTENT_TYPE)) cs ?ys"
  proof (cases hh)
    case True
    then show ?thesis using map_first_all2[of "is_override_for ?H" _ cs]
      by (simp add: update_type_def)
  next
    case False
    then show ?thesis by (simp add: list_all2_same)
  qed
  have b: "list_all2 (\<lambda>x y. y = x \<or> (is_override_for ?F x
      \<and> y = set_attr x ''ContentType'' FOOTER_CONTENT_TYPE)) ?ys ?zs"
  proof (cases hf)
    case True
    then show ?thesis using map_first_all2[of "is_override_for ?F" _ ?ys]
      by (simp add: update_type_def)
  next
    case False
    then show ?thesis by (simp add: list_all2_same)
  qed
  have step: "tag z = tag x \<and> get_attr z ''PartName'' = get_attr x ''PartName''
        \<and> (z = x
           \<or> is_override_for ?H x \<and> z = set_attr x ''ContentType'' HEADER_CONTENT_TYPE
           \<or> is_override_for ?F x \<and> z = set_attr x ''ContentType'' FOOTER_CONTENT_TYPE)"
    if xy: "y = x \<or> (is_override_for ?H x \<and> y = set_attr x ''ContentType'' HEADER_CONTENT_TYPE)"
      and yz: "z = y \<or> (is_override_for ?F y \<and> z = set_attr y ''ContentType'' FOOTER_CONTENT_TYPE)"
    for x y z
  proof -
    have ne: "\<not> (is_override_for ?H x \<and> is_override_for ?F x)"
      using is_override_for_unique[of ?H x ?F] by auto
    from xy yz ne show ?thesis
      by (auto simp: override_set_type_attrs is_override_for_set_type)
  qed
  show ?thesis
    by (rule list_all2_trans[OF _ a b]) (rule step)
qed

lemma length_update_types:
  "length ((if hf then update_type pf tf else id) ((if hh then update_type ph th else id) cs))
     = length cs"
  by (simp add: update_type_def length_map_first)

lemma filter_update_types_header:
  "filter (is_override_for ''/word/header1.xml'')
     ((if hf then update_type ''/word/footer1.xml'' FOOTER_CONTENT_TYPE else id)
        ((if hh then update_type ''/word/header1.xml'' HEADER_CONTENT_TYPE else id) cs))
   = (if hh then update_type ''/word/header1.xml'' HEADER_CONTENT_TYPE else id)
       (filter (is_override_for ''/word/header1.xml'') cs)"
proof -
  let ?H = "''/word/header1.xml''" and ?F = "''/word/footer1.xml''"
  have o: "filter (is_override_for ?H) (update_type ?F FOOTER_CONTENT_TYPE ys)
      = filter (is_override_for ?H) ys" for ys
    unfolding update_type_def
  proof (rule filter_map_first_other)
    fix x assume "is_override_for ?F x"
    then show "\<not> is_override_for ?H x
        \<and> \<not> is_override_for ?H (set_attr x ''ContentType'' FOOTER_CONTENT_TYPE)"
      using is_override_for_unique[of ?F x ?H] by (auto simp: is_override_for_set_type)
  qed
  have s: "filter (is_override_for ?H) (update_type ?H HEADER_CONTENT_TYPE ys)
      = update_type ?H HEADER_CONTENT_TYPE (filter (is_override_for ?H) ys)" for ys
    unfolding update_type_def
    by (rule filter_map_first_same) (simp add: is_override_for_set_type)
  show ?thesis by (simp add: o s)
qed

lemma filter_update_types_footer:
  "filter (is_override_for ''/word/footer1.xml'')
     ((if hf then update_type ''/word/footer1.xml'' FOOTER_CONTENT_TYPE else id)
        ((if hh then update_type ''/word/header1.xml'' HEADER_CONTENT_TYPE else id) cs))
   = (if hf then update_type ''/word/footer1.xml'' FOOTER_CONTENT_TYPE else id)
       (filter (is_override_for ''/word/footer1.xml'') cs)"
proof -
  let ?H = "''/word/header1.xml''" and ?F = "''/word/footer1.xml''"
  have o: "filter (is_override_for ?F) (update_type ?H HEADER_CONTENT_TYPE ys)
      = filter (is_override_for ?F) ys" for ys
    unfolding update_type_def
  proof (rule filter_map_first_other)
    fix x assume "is_override_for ?H x"
    then show "\<not> is_override_for ?F x
        \<and> \<not> is_override_for ?F (set_attr x ''ContentType'' HEADER_CONTENT_TYPE)"
      using is_override_for_unique[of ?H x ?F] by (auto simp: is_override_for_set_type)
  qed
  have s: "filter (is_override_for ?F) (update_type ?F FOOTER_CONTENT_TYPE ys)
      = update_type ?F FOOTER_CONTENT_TYPE (filter (is_override_for ?F) ys)" for ys
    unfolding update_type_def
    by (rule filter_map_first_same) (simp add: is_override_for_set_type)
  show ?thesis by (simp add: o s)
qed

lemma at_most_one_cases:
  assumes "length (filter p xs) \<le> 1"
  shows "(\<not> (\<exists>x\<in>set xs. p x) \<and> filter p xs = [])
     \<or> (\<exists>x. p x \<and> filter p xs = [x] \<and> (\<exists>x\<in>set xs. p x))"
proof (cases "filter p xs")
  case Nil
  then show ?thesis by (auto simp: filter_empty_conv)
next
  case (Cons x ys)
  with assms have "ys = []" by simp
  with Cons have f: "filter p xs = [x]" by simp
  then have "x \<in> set (filter p xs)" by simp
  then have "p x \<and> x \<in> set xs" by simp
  with f show ?thesis by blast
qed

lemma edit_content_types_header_override:
  assumes one: "length (filter (is_override_for ''/word/header1.xml'') (children ct0)) \<le> 1"
  shows "hh \<Longrightarrow> \<exists>ov. filter (is_override_for ''/word/header1.xml'')
             (children (edit_content_types ct0 hh hf)) = [ov]
           \<and> get_attr ov ''ContentType'' = Some HEADER_CONTENT_TYPE"
    and "\<not> hh \<Longrightarrow> filter (is_override_for ''/word/header1.xml'')
             (children (edit_content_types ct0 hh hf))
           = filter (is_override_for ''/word/header1.xml'') (children ct0)"
proof -
  let ?H = "''/word/header1.xml''"
  have f: "filter (is_override_for ?H) (children (edit_content_types ct0 hh hf))
      = (if hh then update_type ?H HEADER_CONTENT_TYPE else id)
          (filter (is_override_for ?H) (children ct0))
        @ (if hh \<and> \<not> (\<exists>c\<in>set (children ct0). is_override_for ?H c)
           then [new_override ?H HEADER_CONTENT_TYPE] else [])"
    unfolding edit_content_types_children
    by (simp only: filter_append filter_update_types_header)
      (simp add: is_override_for_new)
  show "\<not> hh \<Longrightarrow> filter (is_override_for ?H) (children (edit_content_types ct0 hh hf))
           = filter (is_override_for ?H) (children ct0)"
    unfolding f by simp
  show "hh \<Longrightarrow> \<exists>ov. filter (is_override_for ?H) (children (edit_content_types ct0 hh hf)) = [ov]
           \<and> get_attr ov ''ContentType'' = Some HEADER_CONTENT_TYPE"
    unfolding f using at_most_one_cases[OF one]
    by (auto simp: update_type_def new_override_type override_set_type_attrs)
qed

lemma edit_content_types_footer_override:
  assumes one: "length (filter (is_override_for ''/word/footer1.xml'') (children ct0)) \<le> 1"
  shows "hf \<Longrightarrow> \<exists>ov. filter (is_override_for ''/word/footer1.xml'')
             (children (edit_content_types ct0 hh hf)) = [ov]
           \<and> get_attr ov ''ContentType'' = Some FOOTER_CONTENT_TYPE"
    and "\<not> hf \<Longrightarrow> filter (is_override_for ''/word/footer1.xml'')
             (children (edit_content_types ct0 hh hf))
           = filter (is_override_for ''/word/footer1.xml'') (children ct0)"
proof -
  let ?F = "''/word/footer1.xml''"
  have f: "filter (is_override_for ?F) (children (edit_content_types ct0 hh hf))
      = (if hf then update_type ?F FOOTER_CONTENT_TYPE else id)
          (filter (is_override_for ?F) (children ct0))
        @ (if hf \<and> \<not> (\<exists>c\<in>set (children ct0). is_override_for ?F c)
           then [new_override ?F FOOTER_CONTENT_TYPE] else [])"
    unfolding edit_content_types_children
    by (simp only: filter_append filter_update_types_footer)
      (simp add: is_override_for_new)
  show "\<not> hf \<Longrightarrow> filter (is_override_for ?F) (children (edit_content_types ct0 hh hf))
           = filter (is_override_for ?F) (children ct0)"
    unfolding f by simp
  show "hf \<Longrightarrow> \<exists>ov. filter (is_override_for ?F) (children (edit_content_types ct0 hh hf)) = [ov]
           \<and> get_attr ov ''ContentType'' = Some FOOTER_CONTENT_TYPE"
    unfolding f using at_most_one_cases[OF one]
    by (auto simp: update_type_def new_override_type override_set_type_attrs)
qed

lemma replace_canonical_read:
  assumes run: "replace_header_footer_parts fromstring tostring src tpl = Inr r"
  shows "(''word/header1.xml'' \<in> set (namelist (entries r)))
           = ({n \<in> set (namelist tpl). is_header_name n} \<noteq> {})"
    and "(''word/footer1.xml'' \<in> set (namelist (entries r)))
           = ({n \<in> set (namelist tpl). is_footer_name n} \<noteq> {})"
proof -
  from run obtain st hb fb where s: "stage_parts src tpl = Inr (st, hb, fb)"
    by (rule replace_cases)
  have rh: "zip_read (entries r) ''word/header1.xml'' = hb"
    using entries_read_other[OF run s, of "''word/header1.xml''"] staged_read_canonical(1)[OF s]
    by simp
  have rf: "zip_read (entries r) ''word/footer1.xml'' = fb"
    using entries_read_other[OF run s, of "''word/footer1.xml''"] staged_read_canonical(2)[OF s]
    by simp
  show "(''word/header1.xml'' \<in> set (namelist (entries r)))
           = ({n \<in> set (namelist tpl). is_header_name n} \<noteq> {})"
    using rh staged_has_part(1)[OF s] zip_read_None_iff[of "entries r" "''word/header1.xml''"]
    by auto
  show "(''word/footer1.xml'' \<in> set (namelist (entries r)))
           = ({n \<in> set (namelist tpl). is_footer_name n} \<noteq> {})"
    using rf staged_has_part(2)[OF s] zip_read_None_iff[of "entries r" "''word/footer1.xml''"]
    by auto
qed

lemma replace_sections:
  assumes run: "replace_header_footer_parts fromstring tostring src tpl = Inr r"
    and s: "s \<in> set (sections (doc_root r))"
  shows "findall_children s (qname NS_w ''headerReference'')
              = (case header_rel_id r of None \<Rightarrow> [] | Some h \<Rightarrow> [header_reference h])"
    and "findall_children s (qname NS_w ''footerReference'')
              = (case footer_rel_id r of None \<Rightarrow> [] | Some f \<Rightarrow> [footer_reference f])"
proof -
  let ?refs = "new_references (header_rel_id r) (footer_rel_id r)"
  from run obtain rels0 doc0 where d: "doc_root r = edit_doc ?refs doc0"
    by (rule replace_trees)
  note secs = edit_doc_sections[OF new_references_props, of "header_rel_id r" "footer_rel_id r" doc0,
      folded d]
  from secs(2) s have f: "filter is_reference (children s) = ?refs" by blast
  show "findall_children s (qname NS_w ''headerReference'')
              = (case header_rel_id r of None \<Rightarrow> [] | Some h \<Rightarrow> [header_reference h])"
    using findall_children_references(1)[OF f] by (simp add: references_of_kind)
  show "findall_children s (qname NS_w ''footerReference'')
              = (case footer_rel_id r of None \<Rightarrow> [] | Some f \<Rightarrow> [footer_reference f])"
    using findall_children_references(2)[OF f] by (simp add: references_of_kind)
qed

lemma replace_allocated:
  assumes run: "replace_header_footer_parts fromstring tostring src tpl = Inr r"
  shows "(header_rel_id r \<noteq> None) = ({n \<in> set (namelist tpl). is_header_name n} \<noteq> {})"
    and "(footer_rel_id r \<noteq> None) = ({n \<in> set (namelist tpl). is_footer_name n} \<noteq> {})"
proof -
  from run obtain rels0 where
    e: "edit_rels rels0 ({n \<in> set (namelist tpl). is_header_name n} \<noteq> {})
       ({n \<in> set (namelist tpl). is_footer_name n} \<noteq> {})
       = (rels_root r, header_rel_id r, footer_rel_id r)"
    by (rule replace_trees)
  show "(header_rel_id r \<noteq> None) = ({n \<in> set (namelist tpl). is_header_name n} \<noteq> {})"
    and "(footer_rel_id r \<noteq> None) = ({n \<in> set (namelist tpl). is_footer_name n} \<noteq> {})"
    using edit_rels_allocated[OF e] by simp_all
qed

lemma kept_rels_of_type:
  "filter (\<lambda>c. \<not> is_header_footer_rel c \<and> is_relationship c
       \<and> endswith (get_attr_default c ''Type'' []) sfx) cs = []"
  if "sfx = ''/header'' \<or> sfx = ''/footer''"
  using that by (auto simp: filter_empty_conv is_header_footer_rel_def Let_def)

lemma edit_rels_of_type:
  assumes e: "edit_rels rels0 hh hf = (r3, hid, fid)"
  shows "\<not> hh \<Longrightarrow> filter (\<lambda>c. is_relationship c
            \<and> endswith (get_attr_default c ''Type'' []) ''/header'') (children r3) = []"
    and "\<not> hf \<Longrightarrow> filter (\<lambda>c. is_relationship c
            \<and> endswith (get_attr_default c ''Type'' []) ''/footer'') (children r3) = []"
proof -
  have nh: "\<not> endswith FOOTER_REL_TYPE ''/header''"
    by (simp add: endswith_def FOOTER_REL_TYPE_def)
  have nf: "\<not> endswith HEADER_REL_TYPE ''/footer''"
    by (simp add: endswith_def HEADER_REL_TYPE_def)
  show "\<not> hh \<Longrightarrow> filter (\<lambda>c. is_relationship c
            \<and> endswith (get_attr_default c ''Type'' []) ''/header'') (children r3) = []"
    unfolding edit_rels_result(3)[OF e]
    by (simp add: kept_rels_of_type relationship_props nh)
  show "\<not> hf \<Longrightarrow> filter (\<lambda>c. is_relationship c
            \<and> endswith (get_attr_default c ''Type'' []) ''/footer'') (children r3) = []"
    unfolding edit_rels_result(3)[OF e]
    by (simp add: kept_rels_of_type relationship_props nf)
qed

lemma replace_rels_of_type:
  assumes run: "replace_header_footer_parts fromstring tostring src tpl = Inr r"
  shows "{n \<in> set (namelist tpl). is_header_name n} = {} \<Longrightarrow>
          filter (\<lambda>c. is_relationship c
            \<and> endswith (get_attr_default c ''Type'' []) ''/header'') (children (rels_root r)) = []"
    and "{n \<in> set (namelist tpl). is_footer_name n} = {} \<Longrightarrow>
          filter (\<lambda>c. is_relationship c
            \<and> endswith (get_attr_default c ''Type'' []) ''/footer'') (children (rels_root r)) = []"
proof -
  from run obtain rels0 where
    e: "edit_rels rels0 ({n \<in> set (namelist tpl). is_header_name n} \<noteq> {})
       ({n \<in> set (namelist tpl). is_footer_name n} \<noteq> {})
       = (rels_root r, header_rel_id r, footer_rel_id r)"
    by (rule replace_trees)
  show "{n \<in> set (namelist tpl). is_header_name n} = {} \<Longrightarrow>
          filter (\<lambda>c. is_relationship c
            \<and> endswith (get_attr_default c ''Type'' []) ''/header'') (children (rels_root r)) = []"
    using edit_rels_of_type(1)[OF e] by simp
  show "{n \<in> set (namelist tpl). is_footer_name n} = {} \<Longrightarrow>
          filter (\<lambda>c. is_relationship c
            \<and> endswith (get_attr_default c ''Type'' []) ''/footer'') (children (rels_root r)) = []"
    using edit_rels_of_type(2)[OF e] by simp
qed









section \<open>A worked example\<close>

text \<open>
  A source with a stale header and an image, a template with two headers, a footer and
  media of its own. The three structured parts are given as trees: \<open>example_fromstring\<close>
  maps their bytes to them, and \<open>example_tostring\<close> writes a tree as its root tag.
\<close>

definition example_src :: zip where
  "example_src =
     [(''[Content_Types].xml'', ''CT''), (''word/document.xml'', ''DOC''),
      (''word/_rels/document.xml.rels'', ''RELS''), (''word/header2.xml'', ''OLDH''),
      (''word/media/image1.png'', ''SRCIMG''), (''word/styles.xml'', ''STYLES'')]"

definition example_tpl :: zip where
  "example_tpl =
     [(''word/header2.xml'', ''H2''), (''word/header1.xml'', ''H1''),
      (''word/footer1.xml'', ''F1''), (''word/_rels/header1.xml.rels'', ''HR''),
      (''word/media/image1.png'', ''TPLIMG''), (''word/media/logo.png'', ''LOGO'')]"

definition example_rels :: element where
  "example_rels =
     Element (qname REL_NS ''Relationships'') [] None None
       [Element (qname REL_NS ''Relationship'')
          [(''Id'', ''rId3''), (''Type'', HEADER_REL_TYPE), (''Target'', ''header2.xml'')] None None [],
        Element (qname REL_NS ''Relationship'')
          [(''Id'', ''rId9001''), (''Type'', ''http://schemas.openxmlformats.org/officeDocument/2006/relationships/image''),
           (''Target'', ''media/image1.png'')] None None []]"

definition example_doc :: element where
  "example_doc =
     Element (qname NS_w ''document'') [] None None
       [Element (qname NS_w ''body'') [] None None
          [Element (qname NS_w ''p'') [] None None
             [Element (qname NS_w ''pPr'') [] None None
                [Element (qname NS_w ''sectPr'') [] None None
                   [Element (qname NS_w ''headerReference'')
                      [(qname NS_w ''type'', ''first''), (qname NS_r ''id'', ''rId3'')] None None []]]],
           Element (qname NS_w ''sectPr'') [] None None
             [Element (qname NS_w ''headerReference'')
                [(qname NS_w ''type'', ''default''), (qname NS_r ''id'', ''rId3'')] None None [],
              Element (qname NS_w ''pgSz'') [] None None []]]]"

definition example_types :: element where
  "example_types =
     Element (qname CT_NS ''Types'') [] None None
       [Element (qname CT_NS ''Override'')
          [(''PartName'', ''/word/document.xml''), (''ContentType'', ''application/xml'')] None None [],
        Element (qname CT_NS ''Override'')
          [(''PartName'', ''/word/header2.xml''), (''ContentType'', HEADER_CONTENT_TYPE)] None None []]"

definition example_fromstring :: "bytes \<Rightarrow> element option" where
  "example_fromstring b =
     (if b = ''RELS'' then Some example_rels
      else if b = ''DOC'' then Some example_doc
      else if b = ''CT'' then Some example_types
      else None)"

definition example_tostring :: "element \<Rightarrow> bytes" where
  "example_tostring e = tag e"

definition example_result :: transformed where
  "example_result =
     \<lparr>entries =
        [(''word/media/image1.png'', ''SRCIMG''), (''word/styles.xml'', ''STYLES''),
         (''word/media/logo.png'', ''LOGO''), (''word/header1.xml'', ''H1''),
         (''word/_rels/header1.xml.rels'', ''HR''), (''word/footer1.xml'', ''F1''),
         (''[Content_Types].xml'', qname CT_NS ''Types''),
         (''word/_rels/document.xml.rels'', qname REL_NS ''Relationships''),
         (''word/document.xml'', qname NS_w ''document'')],
      ct_root =
        Element (qname CT_NS ''Types'') [] None None
          [Element (qname CT_NS ''Override'')
             [(''PartName'', ''/word/document.xml''), (''ContentType'', ''application/xml'')]
             None None [],
           Element (qname CT_NS ''Override'')
             [(''PartName'', ''/word/header2.xml''), (''ContentType'', HEADER_CONTENT_TYPE)]
             None None [],
           Element (qname CT_NS ''Override'')
             [(''PartName'', ''/word/header1.xml''), (''ContentType'', HEADER_CONTENT_TYPE)]
             None None [],
           Element (qname CT_NS ''Override'')
             [(''PartName'', ''/word/footer1.xml''), (''ContentType'', FOOTER_CONTENT_TYPE)]
             None None []],
      rels_root =
        Element (qname REL_NS ''Relationships'') [] None None
          [Element (qname REL_NS ''Relationship'')
             [(''Id'', ''rId9001''),
              (''Type'', ''http://schemas.openxmlformats.org/officeDocument/2006/relationships/image''),
              (''Target'', ''media/image1.png'')] None None [],
           Element (qname REL_NS ''Relationship'')
             [(''Id'', ''rId9002''), (''Type'', HEADER_REL_TYPE), (''Target'', ''header1.xml'')]
             None None [],
           Element (qname REL_NS ''Relationship'')
             [(''Id'', ''rId9003''), (''Type'', FOOTER_REL_TYPE), (''Target'', ''footer1.xml'')]
             None None []],
      doc_root =
        Element (qname NS_w ''document'') [] None None
          [Element (qname NS_w ''body'') [] None None
             [Element (qname NS_w ''p'') [] None None
                [Element (qname NS_w ''pPr'') [] None None
                   [Element (qname NS_w ''sectPr'') [] None None
                      [header_reference ''rId9002'', footer_reference ''rId9003'']]],
              Element (qname NS_w ''sectPr'') [] None None
                [Element (qname NS_w ''pgSz'') [] None None [],
                 header_reference ''rId9002'', footer_reference ''rId9003'']]],
      header_rel_id = Some ''rId9002'', footer_rel_id = Some ''rId9003''\<rparr>"



lemma rid_9001: "rid 9001 = ''rId9001''"
  by (simp add: rid_def str_nat_small str_nat_big digit_char_def)

lemma rid_9002: "rid 9002 = ''rId9002''"
  by (simp add: rid_def str_nat_small str_nat_big digit_char_def)

lemma rid_9003: "rid 9003 = ''rId9003''"
  by (simp add: rid_def str_nat_small str_nat_big digit_char_def)

lemma example_stage:
  "stage_parts example_src example_tpl =
     Inr (\<lparr>out_zip =
            [(''word/media/image1.png'', ''SRCIMG''), (''word/styles.xml'', ''STYLES''),
             (''word/media/logo.png'', ''LOGO''), (''word/header1.xml'', ''H1''),
             (''word/_rels/header1.xml.rels'', ''HR''), (''word/footer1.xml'', ''F1'')],
           doc_xml_bytes = Some ''DOC'', doc_rels_bytes = Some ''RELS'',
           content_types_bytes = Some ''CT''\<rparr>, Some ''H1'', Some ''F1'')"
  by (simp add: stage_parts_def example_src_def example_tpl_def namelist_def staged0_def
      copy_step_def zip_read_def writestr_def is_header_footer_part_def is_header_footer_rels_def
      startswith_def endswith_def basename_def collect_headers_footers_from_template_def
      is_header_name_def is_footer_name_def pick_first_part_def ensure_media_dependencies_def
      write_part_def)

lemma example_edit_rels:
  "edit_rels example_rels True True = (rels_root example_result, Some ''rId9002'', Some ''rId9003'')"
  by (simp add: edit_rels_def example_rels_def example_result_def is_relationship_def
      is_header_footer_rel_def get_attr_def get_attr_default_def endswith_def qname_def
      strip_header_footer_rels_def set_children_def new_rid_def Let_def
      new_rid_loop.simps[of _ 9001] new_rid_loop.simps[of _ 9002] new_rid_loop.simps[of _ 9003]
      rid_9001 rid_9002 rid_9003 add_relationship_def relationship_def append_child_def set_attr_def new_element_def
      HEADER_REL_TYPE_def FOOTER_REL_TYPE_def REL_NS_def)


lemma example_edit_doc:
  "edit_doc (new_references (Some ''rId9002'') (Some ''rId9003'')) example_doc = doc_root example_result"
  by (simp add: edit_doc_def example_doc_def example_result_def new_references_def find_child_def
      edit_body_def findall_descendants_def is_reference_def set_children_def qname_def NS_w_def)

lemma example_edit_types:
  "edit_content_types example_types True True = ct_root example_result"
  by (simp add: edit_content_types_def example_types_def example_result_def ensure_override_def new_override_def
      is_override_for_def get_attr_def append_child_def set_attr_def new_element_def
      set_children_def qname_def CT_NS_def)

lemma example_run:
  "replace_header_footer_parts example_fromstring example_tostring example_src example_tpl
     = Inr example_result"
proof -
  have "edit_parts example_fromstring example_tostring
      \<lparr>out_zip =
            [(''word/media/image1.png'', ''SRCIMG''), (''word/styles.xml'', ''STYLES''),
             (''word/media/logo.png'', ''LOGO''), (''word/header1.xml'', ''H1''),
             (''word/_rels/header1.xml.rels'', ''HR''), (''word/footer1.xml'', ''F1'')],
           doc_xml_bytes = Some ''DOC'', doc_rels_bytes = Some ''RELS'',
           content_types_bytes = Some ''CT''\<rparr> True True = Inr example_result"
    unfolding edit_parts_def
    by (simp add: parse_or_def example_fromstring_def example_edit_rels example_edit_doc
        example_edit_types writestr_def example_tostring_def)
       (simp add: example_result_def)
  then show ?thesis
    by (simp add: replace_header_footer_parts_def example_stage)
qed

text \<open>A source with an entry in a subdirectory of \<open>word/\<close>, and an empty template.\<close>

definition dropped_src :: zip where
  "dropped_src = [(''word/headerparts/x.xml'', ''X''), (''word/styles.xml'', ''S'')]"

definition dropped_result :: transformed where
  "dropped_result =
     \<lparr>entries =
        [(''word/styles.xml'', ''S''), (''[Content_Types].xml'', qname CT_NS ''Types''),
         (''word/_rels/document.xml.rels'', qname REL_NS ''Relationships''),
         (''word/document.xml'', qname NS_w ''document'')],
      ct_root = new_element (qname CT_NS ''Types''),
      rels_root = new_element (qname REL_NS ''Relationships''),
      doc_root = minimal_document,
      header_rel_id = None, footer_rel_id = None\<rparr>"

lemma dropped_run:
  "replace_header_footer_parts (\<lambda>b. None) example_tostring dropped_src [] = Inr dropped_result"
  by (simp add: replace_header_footer_parts_def stage_parts_def dropped_src_def namelist_def
      staged0_def copy_step_def zip_read_def writestr_def is_header_footer_part_def
      is_header_footer_rels_def startswith_def endswith_def basename_def
      collect_headers_footers_from_template_def pick_first_part_def
      ensure_media_dependencies_def write_part_def edit_parts_def parse_or_def edit_rels_def
      strip_header_footer_rels_def set_children_def new_element_def edit_doc_def
      minimal_document_def append_child_def find_child_def edit_body_def
      findall_descendants_def new_references_def edit_content_types_def dropped_result_def
      example_tostring_def qname_def NS_w_def)

lemma example_source_rels:
  "parse_or example_fromstring (zip_read example_src ''word/_rels/document.xml.rels'')
     (new_element (qname REL_NS ''Relationships'')) = Inr example_rels"
  by (simp add: parse_or_def example_src_def zip_read_def example_fromstring_def)

text \<open>
  An empty source and a template that holds, besides \<open>word/header1.xml\<close>, an entry in
  a subdirectory whose name starts with \<open>word/header\<close>.
\<close>

definition selector_tpl :: zip where
  "selector_tpl = [(''word/header1.xml'', ''H1''), (''word/header/x.xml'', ''X'')]"

definition selector_result :: transformed where
  "selector_result =
     \<lparr>entries =
        [(''word/header1.xml'', ''X''), (''[Content_Types].xml'', qname CT_NS ''Types''),
         (''word/_rels/document.xml.rels'', qname REL_NS ''Relationships''),
         (''word/document.xml'', qname NS_w ''document'')],
      ct_root =
        Element (qname CT_NS ''Types'') [] None None
          [new_override ''/word/header1.xml'' HEADER_CONTENT_TYPE],
      rels_root =
        Element (qname REL_NS ''Relationships'') [] None None
          [relationship ''rId9001'' HEADER_REL_TYPE ''header1.xml''],
      doc_root =
        Element (qname NS_w ''document'') [] None None
          [Element (qname NS_w ''body'') [] None None
             [Element (qname NS_w ''sectPr'') [] None None [header_reference ''rId9001'']]],
      header_rel_id = Some ''rId9001'', footer_rel_id = None\<rparr>"

lemma selector_stage:
  "stage_parts [] selector_tpl =
     Inr (\<lparr>out_zip = [(''word/header1.xml'', ''X'')], doc_xml_bytes = None,
            doc_rels_bytes = None, content_types_bytes = None\<rparr>, Some ''X'', None)"
  by (simp add: stage_parts_def selector_tpl_def namelist_def staged0_def
      zip_read_def writestr_def startswith_def endswith_def basename_def
      collect_headers_footers_from_template_def
      is_header_name_def is_footer_name_def pick_first_part_def ensure_media_dependencies_def
      write_part_def)

lemma selector_run:
  "replace_header_footer_parts (\<lambda>b. None) example_tostring [] selector_tpl = Inr selector_result"
proof -
  have r: "edit_rels (new_element (qname REL_NS ''Relationships'')) True False
      = (rels_root selector_result, Some ''rId9001'', None)"
    by (simp add: edit_rels_def new_element_def strip_header_footer_rels_def set_children_def
        new_rid_def Let_def new_rid_loop.simps[of _ 9001] rid_9001 add_relationship_def
        append_child_def selector_result_def)
  have d: "edit_doc (new_references (Some ''rId9001'') None) minimal_document
      = doc_root selector_result"
    by (simp add: edit_doc_def minimal_document_def new_references_def find_child_def
        edit_body_def findall_descendants_def is_reference_def set_children_def append_child_def
        new_element_def selector_result_def header_reference_def set_attr_def qname_def NS_w_def)
  have c: "edit_content_types (new_element (qname CT_NS ''Types'')) True False
      = ct_root selector_result"
    by (simp add: edit_content_types_def ensure_override_def new_element_def append_child_def
        selector_result_def)
  have "edit_parts (\<lambda>b. None) example_tostring
      \<lparr>out_zip = [(''word/header1.xml'', ''X'')], doc_xml_bytes = None,
            doc_rels_bytes = None, content_types_bytes = None\<rparr> True False = Inr selector_result"
    unfolding edit_parts_def
    by (simp add: parse_or_def r d c writestr_def example_tostring_def)
       (simp add: selector_result_def)
  then show ?thesis
    by (simp add: replace_header_footer_parts_def selector_stage)
qed

lemma example_source_types:
  "parse_or example_fromstring (zip_read example_src ''[Content_Types].xml'')
     (new_element (qname CT_NS ''Types'')) = Inr example_types"
  by (simp add: parse_or_def example_src_def zip_read_def example_fromstring_def)

lemma dropped_source_types:
  "parse_or (\<lambda>b. None) (zip_read dropped_src ''[Content_Types].xml'')
     (new_element (qname CT_NS ''Types'')) = Inr (new_element (qname CT_NS ''Types''))"
  by (simp add: parse_or_def dropped_src_def zip_read_def)

text \<open>An empty source and a template whose only entry is in a subdirectory.\<close>

definition nested_tpl :: zip where
  "nested_tpl = [(''word/header/x.xml'', ''X'')]"

lemma nested_run:
  "replace_header_footer_parts (\<lambda>b. None) example_tostring [] nested_tpl = Inr selector_result"
proof -
  have s: "stage_parts [] nested_tpl =
     Inr (\<lparr>out_zip = [(''word/header1.xml'', ''X'')], doc_xml_bytes = None,
            doc_rels_bytes = None, content_types_bytes = None\<rparr>, Some ''X'', None)"
    by (simp add: stage_parts_def nested_tpl_def namelist_def staged0_def
        zip_read_def writestr_def startswith_def endswith_def basename_def
        collect_headers_footers_from_template_def
        is_header_name_def is_footer_name_def pick_first_part_def ensure_media_dependencies_def
        write_part_def)
  have "replace_header_footer_parts (\<lambda>b. None) example_tostring [] nested_tpl
      = replace_header_footer_parts (\<lambda>b. None) example_tostring [] selector_tpl"
    by (simp add: replace_header_footer_parts_def s selector_stage)
  then show ?thesis by (simp add: selector_run)
qed









section \<open>The claims\<close>

text \<open>
  C2, as amended. A header or footer part is an entry that \<open>is_header_footer_part\<close>
  accepts: its whole name starts with \<open>word/header\<close> or \<open>word/footer\<close> and ends with
  \<open>.xml\<close>, whatever its basename is. After a successful transform of a source whose
  entry names are unique, every source entry that is none of \<open>word/document.xml\<close>,
  \<open>word/_rels/document.xml.rels\<close>, \<open>[Content_Types].xml\<close>, a header or footer part
  in this sense or a header or footer relationship file is in the output under its name
  with the same bytes, and reading that name from the output gives those bytes.
\<close>

theorem passthrough_byte_for_byte:
  assumes run: "replace_header_footer_parts fromstring tostring src_zip tpl_zip = Inr r"
    and uniq: "distinct (namelist src_zip)"
    and entry: "(n, b) \<in> set src_zip"
    and n1: "n \<noteq> ''word/document.xml''" and n2: "n \<noteq> ''word/_rels/document.xml.rels''"
    and n3: "n \<noteq> ''[Content_Types].xml''"
    and n4: "\<not> is_header_footer_part n" and n5: "\<not> is_header_footer_rels n"
  shows "zip_read (entries r) n = Some b \<and> (n, b) \<in> set (entries r)"
proof -
  from run obtain st hb fb where s: "stage_parts src_zip tpl_zip = Inr (st, hb, fb)"
    by (rule replace_cases)
  have p: "passthrough n" using n1 n2 n3 n4 n5 by (simp add: passthrough_def)
  have m: "n \<in> set (namelist src_zip)" using entry by (force simp: namelist_def)
  have "zip_read (entries r) n = zip_read (out_zip st) n"
    using entries_read_other[OF run s n3 n2 n1] .
  also have "\<dots> = zip_read src_zip n" using staged_read_passthrough[OF s p m] .
  also have "\<dots> = Some b" using zip_read_distinct[OF uniq entry] .
  finally have "zip_read (entries r) n = Some b" .
  then show ?thesis by (simp add: zip_read_in_set)
qed

theorem passthrough_byte_for_byte_witness:
  "replace_header_footer_parts example_fromstring example_tostring example_src example_tpl
     = Inr example_result
   \<and> distinct (namelist example_src)
   \<and> (''word/styles.xml'', ''STYLES'') \<in> set example_src
   \<and> \<not> is_header_footer_part ''word/styles.xml''
   \<and> \<not> is_header_footer_rels ''word/styles.xml''
   \<and> zip_read (entries example_result) ''word/styles.xml'' = Some ''STYLES''
   \<and> (''word/styles.xml'', ''STYLES'') \<in> set (entries example_result)"
  using passthrough_byte_for_byte[OF example_run, of "''word/styles.xml''" "''STYLES''"]
    example_run
  by (simp add: example_src_def namelist_def is_header_footer_part_def is_header_footer_rels_def
      startswith_def endswith_def basename_def)

text \<open>
  The claim as first stated, with header and footer parts recognised by their basename,
  fails: \<open>word/headerparts/x.xml\<close> has the basename \<open>x.xml\<close>, is none of the three
  edited parts and no relationship file, and is not in the output.
\<close>

theorem passthrough_subdirectory_counterexample:
  "distinct (namelist dropped_src)
   \<and> (''word/headerparts/x.xml'', ''X'') \<in> set dropped_src
   \<and> ''word/headerparts/x.xml'' \<noteq> ''word/document.xml''
   \<and> ''word/headerparts/x.xml'' \<noteq> ''word/_rels/document.xml.rels''
   \<and> ''word/headerparts/x.xml'' \<noteq> ''[Content_Types].xml''
   \<and> basename ''word/headerparts/x.xml'' = ''x.xml''
   \<and> \<not> startswith (basename ''word/headerparts/x.xml'') ''header''
   \<and> \<not> startswith (basename ''word/headerparts/x.xml'') ''footer''
   \<and> \<not> is_header_footer_rels ''word/headerparts/x.xml''
   \<and> replace_header_footer_parts (\<lambda>b. None) example_tostring dropped_src [] = Inr dropped_result
   \<and> namelist (entries dropped_result) =
        [''word/styles.xml'', ''[Content_Types].xml'', ''word/_rels/document.xml.rels'',
         ''word/document.xml'']
   \<and> zip_read (entries dropped_result) ''word/headerparts/x.xml'' = None
   \<and> (''word/headerparts/x.xml'', ''X'') \<notin> set (entries dropped_result)"
  using dropped_run
  by (simp add: dropped_src_def dropped_result_def namelist_def zip_read_def
      is_header_footer_rels_def startswith_def endswith_def basename_def)

text \<open>
  C3, as amended. A header part of the template is an entry that \<open>is_header_name\<close>
  accepts: its whole name starts with \<open>word/header\<close> and ends with \<open>.xml\<close>, whatever
  its basename is; a footer part likewise with \<open>word/footer\<close>. After a successful
  transform, when the template holds at least one header part in this sense, the output
  entry \<open>word/header1.xml\<close> exists and its bytes are those of the template header part
  whose entry name is the smallest in lexicographic order among them; likewise
  \<open>word/footer1.xml\<close> holds the bytes of the template's footer part of the smallest
  name.
\<close>

theorem canonical_parts_from_smallest_names:
  assumes run: "replace_header_footer_parts fromstring tostring src_zip tpl_zip = Inr r"
  shows "({n \<in> set (namelist tpl_zip). is_header_name n} \<noteq> {} \<longrightarrow>
           (\<exists>m b. m \<in> set (namelist tpl_zip) \<and> is_header_name m
              \<and> (\<forall>n \<in> set (namelist tpl_zip). is_header_name n \<longrightarrow> m \<le> n)
              \<and> (m, b) \<in> set tpl_zip \<and> zip_read tpl_zip m = Some b
              \<and> zip_read (entries r) ''word/header1.xml'' = Some b
              \<and> (''word/header1.xml'', b) \<in> set (entries r)))
       \<and> ({n \<in> set (namelist tpl_zip). is_footer_name n} \<noteq> {} \<longrightarrow>
           (\<exists>m b. m \<in> set (namelist tpl_zip) \<and> is_footer_name m
              \<and> (\<forall>n \<in> set (namelist tpl_zip). is_footer_name n \<longrightarrow> m \<le> n)
              \<and> (m, b) \<in> set tpl_zip \<and> zip_read tpl_zip m = Some b
              \<and> zip_read (entries r) ''word/footer1.xml'' = Some b
              \<and> (''word/footer1.xml'', b) \<in> set (entries r)))"
proof -
  from run obtain st hb fb where s: "stage_parts src_zip tpl_zip = Inr (st, hb, fb)"
    by (rule replace_cases)
  have rh: "zip_read (entries r) ''word/header1.xml'' = hb"
    using entries_read_other[OF run s, of "''word/header1.xml''"] staged_read_canonical(1)[OF s]
    by simp
  have rf: "zip_read (entries r) ''word/footer1.xml'' = fb"
    using entries_read_other[OF run s, of "''word/footer1.xml''"] staged_read_canonical(2)[OF s]
    by simp
  show ?thesis
  proof (intro conjI impI)
    assume ne: "{n \<in> set (namelist tpl_zip). is_header_name n} \<noteq> {}"
    have "zip_read (entries r) ''word/header1.xml''
        = zip_read tpl_zip (Min {n \<in> set (namelist tpl_zip). is_header_name n})"
      using rh staged_picks(1)[OF s] ne by auto
    with ne show "\<exists>m b. m \<in> set (namelist tpl_zip) \<and> is_header_name m
              \<and> (\<forall>n \<in> set (namelist tpl_zip). is_header_name n \<longrightarrow> m \<le> n)
              \<and> (m, b) \<in> set tpl_zip \<and> zip_read tpl_zip m = Some b
              \<and> zip_read (entries r) ''word/header1.xml'' = Some b
              \<and> (''word/header1.xml'', b) \<in> set (entries r)"
      by (rule smallest_entry)
  next
    assume ne: "{n \<in> set (namelist tpl_zip). is_footer_name n} \<noteq> {}"
    have "zip_read (entries r) ''word/footer1.xml''
        = zip_read tpl_zip (Min {n \<in> set (namelist tpl_zip). is_footer_name n})"
      using rf staged_picks(2)[OF s] ne by auto
    with ne show "\<exists>m b. m \<in> set (namelist tpl_zip) \<and> is_footer_name m
              \<and> (\<forall>n \<in> set (namelist tpl_zip). is_footer_name n \<longrightarrow> m \<le> n)
              \<and> (m, b) \<in> set tpl_zip \<and> zip_read tpl_zip m = Some b
              \<and> zip_read (entries r) ''word/footer1.xml'' = Some b
              \<and> (''word/footer1.xml'', b) \<in> set (entries r)"
      by (rule smallest_entry)
  qed
qed

theorem canonical_parts_from_smallest_names_witness:
  "replace_header_footer_parts example_fromstring example_tostring example_src example_tpl
     = Inr example_result
   \<and> ''word/header1.xml'' \<in> set (namelist example_tpl) \<and> is_header_name ''word/header1.xml''
   \<and> ''word/header2.xml'' \<in> set (namelist example_tpl) \<and> is_header_name ''word/header2.xml''
   \<and> ''word/header1.xml'' \<le> ''word/header2.xml''
   \<and> zip_read example_tpl ''word/header1.xml'' = Some ''H1''
   \<and> zip_read (entries example_result) ''word/header1.xml'' = Some ''H1''
   \<and> zip_read example_tpl ''word/footer1.xml'' = Some ''F1''
   \<and> zip_read (entries example_result) ''word/footer1.xml'' = Some ''F1''"
  using canonical_parts_from_smallest_names[OF example_run] example_run
  by (simp add: example_tpl_def namelist_def is_header_name_def is_footer_name_def
      startswith_def endswith_def zip_read_def example_result_def)

text \<open>
  The claim as first stated, with header parts recognised by their basename, fails: in
  a template that holds \<open>word/header1.xml\<close> and \<open>word/header/x.xml\<close> the only header
  part by basename is \<open>word/header1.xml\<close>, but the smallest name that
  \<open>is_header_name\<close> accepts is \<open>word/header/x.xml\<close>, and its bytes are installed.
\<close>

theorem smallest_name_in_subdirectory_counterexample:
  "replace_header_footer_parts (\<lambda>b. None) example_tostring [] selector_tpl = Inr selector_result
   \<and> selector_tpl = [(''word/header1.xml'', ''H1''), (''word/header/x.xml'', ''X'')]
   \<and> basename ''word/header1.xml'' = ''header1.xml''
   \<and> startswith (basename ''word/header1.xml'') ''header''
   \<and> endswith (basename ''word/header1.xml'') ''.xml''
   \<and> basename ''word/header/x.xml'' = ''x.xml''
   \<and> \<not> startswith (basename ''word/header/x.xml'') ''header''
   \<and> \<not> startswith (basename ''word/header/x.xml'') ''footer''
   \<and> is_header_name ''word/header/x.xml''
   \<and> ''word/header/x.xml'' < ''word/header1.xml''
   \<and> zip_read selector_tpl ''word/header1.xml'' = Some ''H1''
   \<and> zip_read (entries selector_result) ''word/header1.xml'' = Some ''X''
   \<and> zip_read (entries selector_result) ''word/header1.xml''
        \<noteq> zip_read selector_tpl ''word/header1.xml''"
  using selector_run
  by (simp add: selector_tpl_def selector_result_def zip_read_def is_header_name_def
      startswith_def endswith_def basename_def)

text \<open>
  C4, as amended. After a successful transform, a template entry whose name starts with
  \<open>word/media/\<close> is in the output with the template's bytes when the source holds no
  entry of that name; when the source holds one, the output keeps the source's bytes
  under that name (\<open>_ensure_media_dependencies\<close> writes a template media entry only if
  the output does not list its name yet). The template's entry names are taken as unique.
\<close>

theorem template_media_copied_if_missing:
  assumes run: "replace_header_footer_parts fromstring tostring src_zip tpl_zip = Inr r"
    and uniq: "distinct (namelist tpl_zip)"
    and entry: "(n, b) \<in> set tpl_zip"
    and media: "startswith n ''word/media/''"
  shows "zip_read (entries r) n =
           (if n \<in> set (namelist src_zip) then zip_read src_zip n else Some b)
         \<and> (n \<notin> set (namelist src_zip) \<longrightarrow> (n, b) \<in> set (entries r))"
proof -
  have m: "n \<in> set (namelist tpl_zip)" using entry by (force simp: namelist_def)
  have t: "zip_read tpl_zip n = Some b" using zip_read_distinct[OF uniq entry] .
  have a: "zip_read (entries r) n =
           (if n \<in> set (namelist src_zip) then zip_read src_zip n else Some b)"
    using entries_read_media[OF run media m] t by simp
  then show ?thesis by (auto intro: zip_read_in_set)
qed

theorem template_media_copied_if_missing_witness:
  "replace_header_footer_parts example_fromstring example_tostring example_src example_tpl
     = Inr example_result
   \<and> distinct (namelist example_tpl)
   \<and> (''word/media/logo.png'', ''LOGO'') \<in> set example_tpl
   \<and> startswith ''word/media/logo.png'' ''word/media/''
   \<and> ''word/media/logo.png'' \<notin> set (namelist example_src)
   \<and> zip_read (entries example_result) ''word/media/logo.png'' = Some ''LOGO''
   \<and> (''word/media/logo.png'', ''LOGO'') \<in> set (entries example_result)"
  using template_media_copied_if_missing[OF example_run, of "''word/media/logo.png''" "''LOGO''"]
    example_run
  by (simp add: example_tpl_def example_src_def namelist_def startswith_def)

theorem template_media_unconditional_counterexample:
  "replace_header_footer_parts example_fromstring example_tostring example_src example_tpl
     = Inr example_result
   \<and> (''word/media/image1.png'', ''TPLIMG'') \<in> set example_tpl
   \<and> startswith ''word/media/image1.png'' ''word/media/''
   \<and> (''word/media/image1.png'', ''SRCIMG'') \<in> set example_src
   \<and> zip_read (entries example_result) ''word/media/image1.png'' = Some ''SRCIMG''
   \<and> (''word/media/image1.png'', ''TPLIMG'') \<notin> set (entries example_result)"
  using example_run
  by (simp add: example_tpl_def example_src_def example_result_def zip_read_def startswith_def)

text \<open>
  C9, as amended. A source entry is classified as a header or footer part when its
  whole entry name starts with \<open>word/header\<close> or \<open>word/footer\<close> and ends with \<open>.xml\<close>
  (the test of \<open>is_header_footer_part\<close>, case-sensitive). For an entry directly in
  \<open>word/\<close> this is the test on its basename. After a successful transform no entry so
  classified is copied: the output holds such a name only for the two canonical parts
  \<open>word/header1.xml\<close> and \<open>word/footer1.xml\<close>; so an entry in a subdirectory such as
  \<open>word/headerparts/x.xml\<close> is dropped. A source entry (of a source with unique names)
  that is not so classified, is none of the three edited parts and is no header or
  footer relationship file is copied byte for byte.
\<close>

theorem header_footer_parts_dropped_by_name_prefix:
  assumes run: "replace_header_footer_parts fromstring tostring src_zip tpl_zip = Inr r"
  shows "(CHR ''/'' \<notin> set base \<longrightarrow>
            basename (''word/'' @ base) = base
            \<and> (is_header_footer_part (''word/'' @ base) \<longleftrightarrow>
                 (startswith base ''header'' \<or> startswith base ''footer'') \<and> endswith base ''.xml''))
       \<and> (is_header_footer_part n \<and> n \<noteq> ''word/header1.xml'' \<and> n \<noteq> ''word/footer1.xml''
            \<longrightarrow> zip_read (entries r) n = None \<and> n \<notin> set (namelist (entries r)))
       \<and> (distinct (namelist src_zip) \<and> (n, b) \<in> set src_zip
            \<and> n \<noteq> ''word/document.xml'' \<and> n \<noteq> ''word/_rels/document.xml.rels''
            \<and> n \<noteq> ''[Content_Types].xml''
            \<and> \<not> is_header_footer_part n \<and> \<not> is_header_footer_rels n
            \<longrightarrow> zip_read (entries r) n = Some b)"
proof (intro conjI impI)
  assume "CHR ''/'' \<notin> set base"
  then show "basename (''word/'' @ base) = base" by (rule basename_in_word)
next
  show "is_header_footer_part (''word/'' @ base) \<longleftrightarrow>
          (startswith base ''header'' \<or> startswith base ''footer'') \<and> endswith base ''.xml''"
    by (rule part_in_word)
next
  assume a: "is_header_footer_part n \<and> n \<noteq> ''word/header1.xml'' \<and> n \<noteq> ''word/footer1.xml''"
  from run obtain st hb fb where s: "stage_parts src_zip tpl_zip = Inr (st, hb, fb)"
    by (rule replace_cases)
  from a have c: "is_header_footer_part n" by simp
  have "zip_read (entries r) n = zip_read (out_zip st) n"
    using entries_read_other[OF run s, of n] part_not_core[OF c] by simp
  also have "\<dots> = None" using staged_read_dropped[OF s c] a by simp
  finally show r0: "zip_read (entries r) n = None" .
  then show "n \<notin> set (namelist (entries r))" by (simp add: zip_read_None_iff)
next
  assume a: "distinct (namelist src_zip) \<and> (n, b) \<in> set src_zip
            \<and> n \<noteq> ''word/document.xml'' \<and> n \<noteq> ''word/_rels/document.xml.rels''
            \<and> n \<noteq> ''[Content_Types].xml''
            \<and> \<not> is_header_footer_part n \<and> \<not> is_header_footer_rels n"
  from run obtain st hb fb where s: "stage_parts src_zip tpl_zip = Inr (st, hb, fb)"
    by (rule replace_cases)
  have p: "passthrough n" using a by (simp add: passthrough_def)
  have m: "n \<in> set (namelist src_zip)" using a by (force simp: namelist_def)
  have "zip_read (entries r) n = zip_read (out_zip st) n"
    using entries_read_other[OF run s, of n] a by simp
  also have "\<dots> = zip_read src_zip n" using staged_read_passthrough[OF s p m] .
  also have "\<dots> = Some b" using zip_read_distinct[of src_zip n b] a by simp
  finally show "zip_read (entries r) n = Some b" .
qed

theorem header_footer_parts_dropped_by_name_prefix_witness:
  "replace_header_footer_parts (\<lambda>b. None) example_tostring dropped_src [] = Inr dropped_result
   \<and> is_header_footer_part ''word/headerparts/x.xml''
   \<and> zip_read (entries dropped_result) ''word/headerparts/x.xml'' = None
   \<and> distinct (namelist dropped_src) \<and> (''word/styles.xml'', ''S'') \<in> set dropped_src
   \<and> \<not> is_header_footer_part ''word/styles.xml'' \<and> \<not> is_header_footer_rels ''word/styles.xml''
   \<and> zip_read (entries dropped_result) ''word/styles.xml'' = Some ''S''
   \<and> CHR ''/'' \<notin> set ''header2.xml'' \<and> is_header_footer_part (''word/'' @ ''header2.xml'')"
  using header_footer_parts_dropped_by_name_prefix[OF dropped_run,
      of "''header2.xml''" "''word/headerparts/x.xml''"]
    header_footer_parts_dropped_by_name_prefix[OF dropped_run,
      of "''header2.xml''" "''word/styles.xml''" "''S''"] dropped_run
  by (simp add: dropped_src_def namelist_def is_header_footer_part_def is_header_footer_rels_def
      startswith_def endswith_def basename_def)

theorem subdirectory_entry_counterexample:
  "(''word/headerparts/x.xml'', ''X'') \<in> set dropped_src
   \<and> basename ''word/headerparts/x.xml'' = ''x.xml''
   \<and> \<not> startswith ''x.xml'' ''header'' \<and> \<not> startswith ''x.xml'' ''footer''
   \<and> is_header_footer_part ''word/headerparts/x.xml''
   \<and> replace_header_footer_parts (\<lambda>b. None) example_tostring dropped_src [] = Inr dropped_result
   \<and> zip_read (entries dropped_result) ''word/headerparts/x.xml'' = None
   \<and> ''word/headerparts/x.xml'' \<notin> set (namelist (entries dropped_result))"
  using dropped_run
  by (simp add: dropped_src_def dropped_result_def namelist_def zip_read_def
      is_header_footer_part_def startswith_def endswith_def basename_def)

text \<open>
  C5. The Ids of a manifest are the \<open>Id\<close> attributes of its \<open>Relationship\<close> children.
  After a successful transform of a source whose manifest has pairwise different Ids,
  the manifest written to the output has no repeated Id; the id allocated for the header
  relationship, and the one for the footer relationship, is \<open>rId\<close> followed by the
  decimal digits of a number that is at least 9001, and is the Id of no relationship of
  the source manifest, of whatever type; when both are allocated they differ.
\<close>

theorem relationship_ids_unique:
  assumes run: "replace_header_footer_parts fromstring tostring src_zip tpl_zip = Inr r"
    and manifest: "parse_or fromstring (zip_read src_zip ''word/_rels/document.xml.rels'')
       (new_element (qname REL_NS ''Relationships'')) = Inr rels0"
    and uniq: "distinct (manifest_ids rels0)"
  shows "zip_read (entries r) ''word/_rels/document.xml.rels'' = Some (tostring (rels_root r))
       \<and> distinct (manifest_ids (rels_root r))
       \<and> (\<forall>i. header_rel_id r = Some i \<longrightarrow>
            (\<exists>n\<ge>9001. i = rid n) \<and> i \<notin> set (manifest_ids rels0)
            \<and> i \<in> set (manifest_ids (rels_root r)))
       \<and> (\<forall>i. footer_rel_id r = Some i \<longrightarrow>
            (\<exists>n\<ge>9001. i = rid n) \<and> i \<notin> set (manifest_ids rels0)
            \<and> i \<in> set (manifest_ids (rels_root r)))
       \<and> (\<forall>i j. header_rel_id r = Some i \<and> footer_rel_id r = Some j \<longrightarrow> i \<noteq> j)"
proof -
  from run obtain rels1 where
    p: "parse_or fromstring (zip_read src_zip ''word/_rels/document.xml.rels'')
       (new_element (qname REL_NS ''Relationships'')) = Inr rels1"
    and e: "edit_rels rels1 ({n \<in> set (namelist tpl_zip). is_header_name n} \<noteq> {})
       ({n \<in> set (namelist tpl_zip). is_footer_name n} \<noteq> {})
       = (rels_root r, header_rel_id r, footer_rel_id r)"
    by (rule replace_trees)
  from p manifest have "rels1 = rels0" by simp
  with e have e0: "edit_rels rels0 ({n \<in> set (namelist tpl_zip). is_header_name n} \<noteq> {})
       ({n \<in> set (namelist tpl_zip). is_footer_name n} \<noteq> {})
       = (rels_root r, header_rel_id r, footer_rel_id r)" by simp
  note ids = edit_rels_ids[OF e0 uniq]
  have "\<And>i. header_rel_id r = Some i \<Longrightarrow> i \<in> set (manifest_ids (rels_root r))"
    unfolding ids(5) by simp
  moreover have "\<And>i. footer_rel_id r = Some i \<Longrightarrow> i \<in> set (manifest_ids (rels_root r))"
    unfolding ids(5) by simp
  ultimately show ?thesis
    using entries_read_core(2)[OF run] ids(1) ids(2) ids(3) ids(4) by blast
qed

theorem relationship_ids_unique_witness:
  "replace_header_footer_parts example_fromstring example_tostring example_src example_tpl
     = Inr example_result
   \<and> manifest_ids example_rels = [''rId3'', ''rId9001'']
   \<and> manifest_ids (rels_root example_result) = [''rId9001'', ''rId9002'', ''rId9003'']
   \<and> distinct (manifest_ids (rels_root example_result))
   \<and> header_rel_id example_result = Some (rid 9002)
   \<and> footer_rel_id example_result = Some (rid 9003)
   \<and> rid 9002 \<notin> set (manifest_ids example_rels)
   \<and> rid 9003 \<notin> set (manifest_ids example_rels)
   \<and> rid 9002 \<noteq> rid 9003"
proof -
  have d: "distinct (manifest_ids example_rels)"
    and m: "manifest_ids example_rels = [''rId3'', ''rId9001'']"
    by (simp_all add: manifest_ids_def example_rels_def is_relationship_def endswith_def
        qname_def get_attr_def List.map_filter_simps)
  have m2: "manifest_ids (rels_root example_result) = [''rId9001'', ''rId9002'', ''rId9003'']"
    by (simp add: manifest_ids_def example_result_def is_relationship_def endswith_def
        qname_def get_attr_def List.map_filter_simps)
  have h: "header_rel_id example_result = Some (rid 9002)"
    and f: "footer_rel_id example_result = Some (rid 9003)"
    by (simp_all add: example_result_def rid_9002 rid_9003)
  from relationship_ids_unique[OF example_run example_source_rels d] h f m m2 example_run
  show ?thesis by simp
qed

text \<open>
  C1. The section-properties blocks of a document are the \<open>sectPr\<close> elements below its
  body. After a successful transform, the document written to the output has at least
  one; a header id is allocated exactly when the template has a header part, a footer id
  exactly when it has a footer part; and in every section-properties block the
  header-references are exactly one, of type \<open>default\<close> and with the allocated header
  id, when a header id is allocated and none otherwise, the footer-references likewise,
  so that all blocks carry the same ids; every header or footer reference of a block has
  type \<open>default\<close> and an id that is an Id of the manifest written to the output.
\<close>

theorem section_references_invariant:
  assumes run: "replace_header_footer_parts fromstring tostring src_zip tpl_zip = Inr r"
  shows "zip_read (entries r) ''word/document.xml'' = Some (tostring (doc_root r))
       \<and> zip_read (entries r) ''word/_rels/document.xml.rels'' = Some (tostring (rels_root r))
       \<and> sections (doc_root r) \<noteq> []
       \<and> ((header_rel_id r \<noteq> None) = ({n \<in> set (namelist tpl_zip). is_header_name n} \<noteq> {}))
       \<and> ((footer_rel_id r \<noteq> None) = ({n \<in> set (namelist tpl_zip). is_footer_name n} \<noteq> {}))
       \<and> (\<forall>s\<in>set (sections (doc_root r)).
            findall_children s (qname NS_w ''headerReference'')
              = (case header_rel_id r of None \<Rightarrow> [] | Some h \<Rightarrow> [header_reference h])
            \<and> findall_children s (qname NS_w ''footerReference'')
              = (case footer_rel_id r of None \<Rightarrow> [] | Some f \<Rightarrow> [footer_reference f])
            \<and> (\<forall>c\<in>set (children s). is_reference c \<longrightarrow>
                 get_attr c (qname NS_w ''type'') = Some ''default''
                 \<and> (\<exists>i\<in>set (manifest_ids (rels_root r)). get_attr c (qname NS_r ''id'') = Some i)))"
proof -
  let ?refs = "new_references (header_rel_id r) (footer_rel_id r)"
  from run obtain rels0 doc0 where
    e: "edit_rels rels0 ({n \<in> set (namelist tpl_zip). is_header_name n} \<noteq> {})
       ({n \<in> set (namelist tpl_zip). is_footer_name n} \<noteq> {})
       = (rels_root r, header_rel_id r, footer_rel_id r)"
    and d: "doc_root r = edit_doc ?refs doc0"
    by (rule replace_trees)
  note secs = edit_doc_sections[OF new_references_props, of "header_rel_id r" "footer_rel_id r" doc0,
      folded d]
  have ids: "\<And>i. i \<in> {header_rel_id r, footer_rel_id r} \<Longrightarrow> i \<noteq> None \<Longrightarrow>
      \<exists>j\<in>set (manifest_ids (rels_root r)). i = Some j"
    unfolding edit_rels_manifest[OF e] by auto
  have each: "findall_children s (qname NS_w ''headerReference'')
              = (case header_rel_id r of None \<Rightarrow> [] | Some h \<Rightarrow> [header_reference h])
            \<and> findall_children s (qname NS_w ''footerReference'')
              = (case footer_rel_id r of None \<Rightarrow> [] | Some f \<Rightarrow> [footer_reference f])
            \<and> (\<forall>c\<in>set (children s). is_reference c \<longrightarrow>
                 get_attr c (qname NS_w ''type'') = Some ''default''
                 \<and> (\<exists>i\<in>set (manifest_ids (rels_root r)). get_attr c (qname NS_r ''id'') = Some i))"
    if s: "s \<in> set (sections (doc_root r))" for s
  proof -
    from secs(2) s have f: "filter is_reference (children s) = ?refs" by blast
    have a: "findall_children s (qname NS_w ''headerReference'')
              = (case header_rel_id r of None \<Rightarrow> [] | Some h \<Rightarrow> [header_reference h])"
      using findall_children_references(1)[OF f] by (simp add: references_of_kind)
    have b: "findall_children s (qname NS_w ''footerReference'')
              = (case footer_rel_id r of None \<Rightarrow> [] | Some f \<Rightarrow> [footer_reference f])"
      using findall_children_references(2)[OF f] by (simp add: references_of_kind)
    have c: "get_attr c (qname NS_w ''type'') = Some ''default''
          \<and> (\<exists>i\<in>set (manifest_ids (rels_root r)). get_attr c (qname NS_r ''id'') = Some i)"
      if "c \<in> set (children s)" "is_reference c" for c
    proof -
      from that have "c \<in> set (filter is_reference (children s))" by simp
      then have m: "c \<in> set ?refs" unfolding f .
      from new_references_attrs[OF m] ids show ?thesis by blast
    qed
    from a b c show ?thesis by blast
  qed
  show ?thesis
    using entries_read_core(2,3)[OF run] secs(1) edit_rels_allocated[OF e] each by blast
qed

theorem section_references_invariant_witness:
  "replace_header_footer_parts example_fromstring example_tostring example_src example_tpl
     = Inr example_result
   \<and> sections (doc_root example_result) =
       [Element (qname NS_w ''sectPr'') [] None None
          [header_reference ''rId9002'', footer_reference ''rId9003''],
        Element (qname NS_w ''sectPr'') [] None None
          [Element (qname NS_w ''pgSz'') [] None None [],
           header_reference ''rId9002'', footer_reference ''rId9003'']]
   \<and> header_rel_id example_result = Some ''rId9002''
   \<and> footer_rel_id example_result = Some ''rId9003''
   \<and> manifest_ids (rels_root example_result) = [''rId9001'', ''rId9002'', ''rId9003'']
   \<and> get_attr (header_reference ''rId9002'') (qname NS_w ''type'') = Some ''default''
   \<and> get_attr (header_reference ''rId9002'') (qname NS_r ''id'') = Some ''rId9002''
   \<and> get_attr (footer_reference ''rId9003'') (qname NS_r ''id'') = Some ''rId9003''"
proof -
  have s: "sections (doc_root example_result) =
       [Element (qname NS_w ''sectPr'') [] None None
          [header_reference ''rId9002'', footer_reference ''rId9003''],
        Element (qname NS_w ''sectPr'') [] None None
          [Element (qname NS_w ''pgSz'') [] None None [],
           header_reference ''rId9002'', footer_reference ''rId9003'']]"
    by (simp add: sections_def example_result_def find_child_def findall_descendants_def
        header_reference_def footer_reference_def set_attr_def new_element_def qname_def NS_w_def)
  have m: "manifest_ids (rels_root example_result) = [''rId9001'', ''rId9002'', ''rId9003'']"
    by (simp add: manifest_ids_def example_result_def is_relationship_def endswith_def
        qname_def get_attr_def List.map_filter_simps)
  have a: "get_attr (header_reference ''rId9002'') (qname NS_w ''type'') = Some ''default''
   \<and> get_attr (header_reference ''rId9002'') (qname NS_r ''id'') = Some ''rId9002''
   \<and> get_attr (footer_reference ''rId9003'') (qname NS_r ''id'') = Some ''rId9003''"
    by (simp add: header_reference_def footer_reference_def set_attr_def new_element_def
        get_attr_def qname_def NS_w_def NS_r_def)
  have h: "header_rel_id example_result = Some ''rId9002''
      \<and> footer_rel_id example_result = Some ''rId9003''"
    by (simp add: example_result_def)
  from section_references_invariant[OF example_run] example_run s m a h
  show ?thesis by simp
qed

text \<open>
  C10. After a successful transform, the registry written to the output as
  \<open>[Content_Types].xml\<close> has the root of the source's registry and, one for one and in
  the same order, the source's children: each is kept with its tag and its PartName,
  and is either unchanged or an Override for \<open>/word/header1.xml\<close> or
  \<open>/word/footer1.xml\<close> whose ContentType was set in place. So the Override of a
  source header or footer part that the transform drops stays as it was. The only
  children after these are the Override appended for \<open>/word/header1.xml\<close>, when the
  template has a header part and the source registry no Override of that name, and the
  one for \<open>/word/footer1.xml\<close> likewise.
\<close>

theorem overrides_preserved:
  assumes run: "replace_header_footer_parts fromstring tostring src_zip tpl_zip = Inr r"
    and types: "parse_or fromstring (zip_read src_zip ''[Content_Types].xml'')
       (new_element (qname CT_NS ''Types'')) = Inr ct0"
  shows "zip_read (entries r) ''[Content_Types].xml'' = Some (tostring (ct_root r))
       \<and> tag (ct_root r) = tag ct0 \<and> attrib (ct_root r) = attrib ct0
       \<and> list_all2 (\<lambda>c c'. tag c' = tag c \<and> get_attr c' ''PartName'' = get_attr c ''PartName''
            \<and> (c' = c
               \<or> is_override_for ''/word/header1.xml'' c
                  \<and> c' = set_attr c ''ContentType'' HEADER_CONTENT_TYPE
               \<or> is_override_for ''/word/footer1.xml'' c
                  \<and> c' = set_attr c ''ContentType'' FOOTER_CONTENT_TYPE))
            (children ct0) (take (length (children ct0)) (children (ct_root r)))
       \<and> drop (length (children ct0)) (children (ct_root r))
           = (if {n \<in> set (namelist tpl_zip). is_header_name n} \<noteq> {}
                 \<and> \<not> (\<exists>c\<in>set (children ct0). is_override_for ''/word/header1.xml'' c)
              then [new_override ''/word/header1.xml'' HEADER_CONTENT_TYPE] else [])
             @ (if {n \<in> set (namelist tpl_zip). is_footer_name n} \<noteq> {}
                   \<and> \<not> (\<exists>c\<in>set (children ct0). is_override_for ''/word/footer1.xml'' c)
                then [new_override ''/word/footer1.xml'' FOOTER_CONTENT_TYPE] else [])"
proof -
  let ?hh = "{n \<in> set (namelist tpl_zip). is_header_name n} \<noteq> {}"
  let ?hf = "{n \<in> set (namelist tpl_zip). is_footer_name n} \<noteq> {}"
  from run obtain rels0 doc0 ct1 where
    p: "parse_or fromstring (zip_read src_zip ''[Content_Types].xml'')
       (new_element (qname CT_NS ''Types'')) = Inr ct1"
    and e: "ct_root r = edit_content_types ct1 ?hh ?hf"
    by (rule replace_trees)
  from p types have "ct1 = ct0" by simp
  with e have c: "ct_root r = edit_content_types ct0 ?hh ?hf" by simp
  let ?P = "(if ?hf then update_type ''/word/footer1.xml'' FOOTER_CONTENT_TYPE else id)
       ((if ?hh then update_type ''/word/header1.xml'' HEADER_CONTENT_TYPE else id) (children ct0))"
  have len: "length ?P = length (children ct0)" by (rule length_update_types)
  have ch: "children (ct_root r) = ?P
     @ (if ?hh \<and> \<not> (\<exists>c\<in>set (children ct0). is_override_for ''/word/header1.xml'' c)
        then [new_override ''/word/header1.xml'' HEADER_CONTENT_TYPE] else [])
     @ (if ?hf \<and> \<not> (\<exists>c\<in>set (children ct0). is_override_for ''/word/footer1.xml'' c)
        then [new_override ''/word/footer1.xml'' FOOTER_CONTENT_TYPE] else [])"
    unfolding c by (rule edit_content_types_children)
  have tk: "take (length (children ct0)) (children (ct_root r)) = ?P"
    unfolding ch using len by simp
  have dr: "drop (length (children ct0)) (children (ct_root r))
      = (if ?hh \<and> \<not> (\<exists>c\<in>set (children ct0). is_override_for ''/word/header1.xml'' c)
        then [new_override ''/word/header1.xml'' HEADER_CONTENT_TYPE] else [])
     @ (if ?hf \<and> \<not> (\<exists>c\<in>set (children ct0). is_override_for ''/word/footer1.xml'' c)
        then [new_override ''/word/footer1.xml'' FOOTER_CONTENT_TYPE] else [])"
    unfolding ch using len by simp
  have root: "tag (ct_root r) = tag ct0 \<and> attrib (ct_root r) = attrib ct0"
    unfolding c by (simp add: edit_content_types_root)
  show ?thesis
    unfolding tk dr
    using entries_read_core(1)[OF run] root update_types_all2[of "children ct0" ?hf ?hh]
    by simp
qed

theorem overrides_preserved_witness:
  "replace_header_footer_parts example_fromstring example_tostring example_src example_tpl
     = Inr example_result
   \<and> children example_types =
       [Element (qname CT_NS ''Override'')
          [(''PartName'', ''/word/document.xml''), (''ContentType'', ''application/xml'')] None None [],
        Element (qname CT_NS ''Override'')
          [(''PartName'', ''/word/header2.xml''), (''ContentType'', HEADER_CONTENT_TYPE)] None None []]
   \<and> take 2 (children (ct_root example_result)) = children example_types
   \<and> drop 2 (children (ct_root example_result))
       = [new_override ''/word/header1.xml'' HEADER_CONTENT_TYPE,
          new_override ''/word/footer1.xml'' FOOTER_CONTENT_TYPE]
   \<and> zip_read (entries example_result) ''word/header2.xml'' = None"
proof -
  have a: "children example_types =
       [Element (qname CT_NS ''Override'')
          [(''PartName'', ''/word/document.xml''), (''ContentType'', ''application/xml'')] None None [],
        Element (qname CT_NS ''Override'')
          [(''PartName'', ''/word/header2.xml''), (''ContentType'', HEADER_CONTENT_TYPE)] None None []]"
    by (simp add: example_types_def)
  have b: "take 2 (children (ct_root example_result)) = children example_types"
    by (simp add: example_types_def example_result_def)
  have c: "drop 2 (children (ct_root example_result))
       = [new_override ''/word/header1.xml'' HEADER_CONTENT_TYPE,
          new_override ''/word/footer1.xml'' FOOTER_CONTENT_TYPE]"
    by (simp add: example_result_def new_override_def set_attr_def new_element_def)
  have d: "zip_read (entries example_result) ''word/header2.xml'' = None"
    by (simp add: example_result_def zip_read_def)
  from overrides_preserved[OF example_run example_source_types] example_run a b c d
  show ?thesis by simp
qed

text \<open>
  C7, as amended. A header part of the template is an entry that \<open>is_header_name\<close> accepts, a
  footer part one that \<open>is_footer_name\<close> accepts: the whole entry name starts with
  \<open>word/header\<close> (resp. \<open>word/footer\<close>) and ends with \<open>.xml\<close>, whatever its basename is.
  After a successful transform of a
  source whose registry has at most one Override for \<open>/word/header1.xml\<close> and at most
  one for \<open>/word/footer1.xml\<close>, for each kind: the canonical part is an entry of the
  output exactly when the template has a part of that kind. When it has one, the
  registry written to the output has exactly one Override for the canonical part name,
  and its ContentType is the WordprocessingML type of the kind. When it has none, no
  relationship id of the kind is allocated, the written manifest has no relationship
  whose Type ends in \<open>/header\<close> (resp. \<open>/footer\<close>), no section-properties block has a
  reference of the kind, and the Overrides for the canonical part name are those of the
  source registry.
\<close>

theorem canonical_parts_iff_template_parts:
  assumes run: "replace_header_footer_parts fromstring tostring src_zip tpl_zip = Inr r"
    and types: "parse_or fromstring (zip_read src_zip ''[Content_Types].xml'')
       (new_element (qname CT_NS ''Types'')) = Inr ct0"
    and one_header:
      "length (filter (is_override_for ''/word/header1.xml'') (children ct0)) \<le> 1"
    and one_footer:
      "length (filter (is_override_for ''/word/footer1.xml'') (children ct0)) \<le> 1"
  shows "((''word/header1.xml'' \<in> set (namelist (entries r)))
            = ({n \<in> set (namelist tpl_zip). is_header_name n} \<noteq> {}))
       \<and> ({n \<in> set (namelist tpl_zip). is_header_name n} \<noteq> {} \<longrightarrow>
            (\<exists>ov. filter (is_override_for ''/word/header1.xml'') (children (ct_root r)) = [ov]
               \<and> get_attr ov ''ContentType'' = Some HEADER_CONTENT_TYPE))
       \<and> ({n \<in> set (namelist tpl_zip). is_header_name n} = {} \<longrightarrow>
            header_rel_id r = None
            \<and> filter (\<lambda>c. is_relationship c \<and> endswith (get_attr_default c ''Type'' []) ''/header'')
                 (children (rels_root r)) = []
            \<and> (\<forall>s\<in>set (sections (doc_root r)).
                 findall_children s (qname NS_w ''headerReference'') = [])
            \<and> filter (is_override_for ''/word/header1.xml'') (children (ct_root r))
                = filter (is_override_for ''/word/header1.xml'') (children ct0))
       \<and> ((''word/footer1.xml'' \<in> set (namelist (entries r)))
            = ({n \<in> set (namelist tpl_zip). is_footer_name n} \<noteq> {}))
       \<and> ({n \<in> set (namelist tpl_zip). is_footer_name n} \<noteq> {} \<longrightarrow>
            (\<exists>ov. filter (is_override_for ''/word/footer1.xml'') (children (ct_root r)) = [ov]
               \<and> get_attr ov ''ContentType'' = Some FOOTER_CONTENT_TYPE))
       \<and> ({n \<in> set (namelist tpl_zip). is_footer_name n} = {} \<longrightarrow>
            footer_rel_id r = None
            \<and> filter (\<lambda>c. is_relationship c \<and> endswith (get_attr_default c ''Type'' []) ''/footer'')
                 (children (rels_root r)) = []
            \<and> (\<forall>s\<in>set (sections (doc_root r)).
                 findall_children s (qname NS_w ''footerReference'') = [])
            \<and> filter (is_override_for ''/word/footer1.xml'') (children (ct_root r))
                = filter (is_override_for ''/word/footer1.xml'') (children ct0))"
proof -
  let ?hh = "{n \<in> set (namelist tpl_zip). is_header_name n} \<noteq> {}"
  let ?hf = "{n \<in> set (namelist tpl_zip). is_footer_name n} \<noteq> {}"
  from run obtain rels0 doc0 ct1 where
    p: "parse_or fromstring (zip_read src_zip ''[Content_Types].xml'')
       (new_element (qname CT_NS ''Types'')) = Inr ct1"
    and e: "ct_root r = edit_content_types ct1 ?hh ?hf"
    by (rule replace_trees)
  from p types have "ct1 = ct0" by simp
  with e have c: "ct_root r = edit_content_types ct0 ?hh ?hf" by simp
  have h1: "(''word/header1.xml'' \<in> set (namelist (entries r))) = ?hh"
    by (rule replace_canonical_read(1)[OF run])
  have f1: "(''word/footer1.xml'' \<in> set (namelist (entries r))) = ?hf"
    by (rule replace_canonical_read(2)[OF run])
  have h2: "\<exists>ov. filter (is_override_for ''/word/header1.xml'') (children (ct_root r)) = [ov]
               \<and> get_attr ov ''ContentType'' = Some HEADER_CONTENT_TYPE" if ?hh
    unfolding c using edit_content_types_header_override(1)[OF one_header that] .
  have f2: "\<exists>ov. filter (is_override_for ''/word/footer1.xml'') (children (ct_root r)) = [ov]
               \<and> get_attr ov ''ContentType'' = Some FOOTER_CONTENT_TYPE" if ?hf
    unfolding c using edit_content_types_footer_override(1)[OF one_footer that] .
  have h3: "header_rel_id r = None
            \<and> filter (\<lambda>c. is_relationship c \<and> endswith (get_attr_default c ''Type'' []) ''/header'')
                 (children (rels_root r)) = []
            \<and> (\<forall>s\<in>set (sections (doc_root r)).
                 findall_children s (qname NS_w ''headerReference'') = [])
            \<and> filter (is_override_for ''/word/header1.xml'') (children (ct_root r))
                = filter (is_override_for ''/word/header1.xml'') (children ct0)"
    if n: "{n \<in> set (namelist tpl_zip). is_header_name n} = {}"
  proof -
    have a: "header_rel_id r = None" using replace_allocated(1)[OF run] n by simp
    have b: "filter (\<lambda>c. is_relationship c \<and> endswith (get_attr_default c ''Type'' []) ''/header'')
                 (children (rels_root r)) = []"
      using replace_rels_of_type(1)[OF run n] .
    have d: "\<forall>s\<in>set (sections (doc_root r)).
                 findall_children s (qname NS_w ''headerReference'') = []"
      using replace_sections(1)[OF run] a by simp
    have "\<not> ?hh" using n by simp
    then have o: "filter (is_override_for ''/word/header1.xml'') (children (ct_root r))
                = filter (is_override_for ''/word/header1.xml'') (children ct0)"
      unfolding c by (rule edit_content_types_header_override(2)[OF one_header])
    from a b d o show ?thesis by blast
  qed
  have f3: "footer_rel_id r = None
            \<and> filter (\<lambda>c. is_relationship c \<and> endswith (get_attr_default c ''Type'' []) ''/footer'')
                 (children (rels_root r)) = []
            \<and> (\<forall>s\<in>set (sections (doc_root r)).
                 findall_children s (qname NS_w ''footerReference'') = [])
            \<and> filter (is_override_for ''/word/footer1.xml'') (children (ct_root r))
                = filter (is_override_for ''/word/footer1.xml'') (children ct0)"
    if n: "{n \<in> set (namelist tpl_zip). is_footer_name n} = {}"
  proof -
    have a: "footer_rel_id r = None" using replace_allocated(2)[OF run] n by simp
    have b: "filter (\<lambda>c. is_relationship c \<and> endswith (get_attr_default c ''Type'' []) ''/footer'')
                 (children (rels_root r)) = []"
      using replace_rels_of_type(2)[OF run n] .
    have d: "\<forall>s\<in>set (sections (doc_root r)).
                 findall_children s (qname NS_w ''footerReference'') = []"
      using replace_sections(2)[OF run] a by simp
    have "\<not> ?hf" using n by simp
    then have o: "filter (is_override_for ''/word/footer1.xml'') (children (ct_root r))
                = filter (is_override_for ''/word/footer1.xml'') (children ct0)"
      unfolding c by (rule edit_content_types_footer_override(2)[OF one_footer])
    from a b d o show ?thesis by blast
  qed
  from h1 h2 h3 f1 f2 f3 show ?thesis by blast
qed

theorem canonical_parts_iff_template_parts_witness:
  "replace_header_footer_parts example_fromstring example_tostring example_src example_tpl
     = Inr example_result
   \<and> is_header_name ''word/header1.xml'' \<and> ''word/header1.xml'' \<in> set (namelist example_tpl)
   \<and> is_footer_name ''word/footer1.xml'' \<and> ''word/footer1.xml'' \<in> set (namelist example_tpl)
   \<and> ''word/header1.xml'' \<in> set (namelist (entries example_result))
   \<and> ''word/footer1.xml'' \<in> set (namelist (entries example_result))
   \<and> filter (is_override_for ''/word/header1.xml'') (children (ct_root example_result))
       = [new_override ''/word/header1.xml'' HEADER_CONTENT_TYPE]
   \<and> filter (is_override_for ''/word/footer1.xml'') (children (ct_root example_result))
       = [new_override ''/word/footer1.xml'' FOOTER_CONTENT_TYPE]
   \<and> replace_header_footer_parts (\<lambda>b. None) example_tostring dropped_src [] = Inr dropped_result
   \<and> ''word/header1.xml'' \<notin> set (namelist (entries dropped_result))
   \<and> ''word/footer1.xml'' \<notin> set (namelist (entries dropped_result))
   \<and> header_rel_id dropped_result = None \<and> footer_rel_id dropped_result = None
   \<and> children (rels_root dropped_result) = []
   \<and> children (ct_root dropped_result) = []
   \<and> sections (doc_root dropped_result) = [new_element (qname NS_w ''sectPr'')]"
proof -
  have o: "length (filter (is_override_for ''/word/header1.xml'') (children example_types)) \<le> 1"
    "length (filter (is_override_for ''/word/footer1.xml'') (children example_types)) \<le> 1"
    by (simp_all add: example_types_def is_override_for_def get_attr_def)
  have o': "length (filter (is_override_for ''/word/header1.xml'')
        (children (new_element (qname CT_NS ''Types'')))) \<le> 1"
    "length (filter (is_override_for ''/word/footer1.xml'')
        (children (new_element (qname CT_NS ''Types'')))) \<le> 1"
    by (simp_all add: new_element_def)
  have t: "is_header_name ''word/header1.xml'' \<and> ''word/header1.xml'' \<in> set (namelist example_tpl)
   \<and> is_footer_name ''word/footer1.xml'' \<and> ''word/footer1.xml'' \<in> set (namelist example_tpl)"
    by (simp add: is_header_name_def is_footer_name_def startswith_def endswith_def
        example_tpl_def namelist_def)
  have c: "filter (is_override_for ''/word/header1.xml'') (children (ct_root example_result))
       = [new_override ''/word/header1.xml'' HEADER_CONTENT_TYPE]
   \<and> filter (is_override_for ''/word/footer1.xml'') (children (ct_root example_result))
       = [new_override ''/word/footer1.xml'' FOOTER_CONTENT_TYPE]"
    by (simp add: example_result_def is_override_for_def get_attr_def new_override_def
        set_attr_def new_element_def)
  have e: "''word/header1.xml'' \<in> set (namelist (entries example_result))
   \<and> ''word/footer1.xml'' \<in> set (namelist (entries example_result))"
    by (simp add: example_result_def namelist_def)
  have d: "''word/header1.xml'' \<notin> set (namelist (entries dropped_result))
   \<and> ''word/footer1.xml'' \<notin> set (namelist (entries dropped_result))
   \<and> header_rel_id dropped_result = None \<and> footer_rel_id dropped_result = None
   \<and> children (rels_root dropped_result) = []
   \<and> children (ct_root dropped_result) = []
   \<and> sections (doc_root dropped_result) = [new_element (qname NS_w ''sectPr'')]"
    by (simp add: dropped_result_def namelist_def new_element_def sections_def
        minimal_document_def append_child_def find_child_def findall_descendants_def)
  from canonical_parts_iff_template_parts[OF example_run example_source_types o]
    canonical_parts_iff_template_parts[OF dropped_run dropped_source_types o']
    example_run dropped_run t c e d
  show ?thesis by simp
qed

text \<open>
  The claim as first stated, with the template's parts recognised by their basename,
  fails: a template whose only entry is \<open>word/header/x.xml\<close>, of basename \<open>x.xml\<close>, has
  no header part by basename, and yet \<open>word/header1.xml\<close> is created with its bytes, with
  a relationship, a section reference and an Override.
\<close>

theorem canonical_part_from_subdirectory_counterexample:
  "replace_header_footer_parts (\<lambda>b. None) example_tostring [] nested_tpl = Inr selector_result
   \<and> namelist nested_tpl = [''word/header/x.xml'']
   \<and> basename ''word/header/x.xml'' = ''x.xml''
   \<and> \<not> startswith (basename ''word/header/x.xml'') ''header''
   \<and> \<not> startswith (basename ''word/header/x.xml'') ''footer''
   \<and> is_header_name ''word/header/x.xml''
   \<and> ''word/header1.xml'' \<in> set (namelist (entries selector_result))
   \<and> zip_read (entries selector_result) ''word/header1.xml'' = Some ''X''
   \<and> header_rel_id selector_result = Some ''rId9001''
   \<and> children (rels_root selector_result)
       = [relationship ''rId9001'' HEADER_REL_TYPE ''header1.xml'']
   \<and> sections (doc_root selector_result)
       = [Element (qname NS_w ''sectPr'') [] None None [header_reference ''rId9001'']]
   \<and> children (ct_root selector_result)
       = [new_override ''/word/header1.xml'' HEADER_CONTENT_TYPE]"
  using nested_run
  by (simp add: nested_tpl_def selector_result_def namelist_def zip_read_def is_header_name_def
      startswith_def endswith_def basename_def sections_def find_child_def
      findall_descendants_def header_reference_def set_attr_def new_element_def qname_def
      NS_w_def)







end
